theory Spec2Isabelle
  imports Complex_Main "HOL-Library.Multiset" "HOL-Library.Product_Lexorder"
begin

section \<open>The tidy-data pipeline of Tidy.ipynb\<close>

text \<open>
  The notebook is a chain of pandas calls over one CSV file. Each call is embedded as a
  function on lists of rows: a DataFrame is the list of its rows in frame order, a
  missing cell (NaN, NaT) is \<open>None\<close>, and an exception is a value of \<open>error\<close>.
  A float64 cell is a \<open>real\<close>: the points and the day counts of the file are whole
  numbers, which float64 holds exactly.
\<close>

subsection \<open>Dates\<close>

text \<open>
  The format \<^verbatim>\<open>'%a, %b %d, %Y'\<close> has no time of day, so a Timestamp of the \<open>date\<close>
  column is a calendar day. It is kept as its proleptic Gregorian ordinal, the number
  \<^verbatim>\<open>date.toordinal()\<close> gives (day 1 is 0001-01-01); the \<^verbatim>\<open>.days\<close> of a difference
  of two Timestamps is the difference of their ordinals.
\<close>

type_synonym timestamp = int

definition is_leap :: "int \<Rightarrow> bool" where
  "is_leap y = (y mod 4 = 0 \<and> (y mod 100 \<noteq> 0 \<or> y mod 400 = 0))"

definition days_before_year :: "int \<Rightarrow> int" where
  "days_before_year y = (y - 1) * 365 + (y - 1) div 4 - (y - 1) div 100 + (y - 1) div 400"

definition days_in_month :: "int \<Rightarrow> int \<Rightarrow> int" where
  "days_in_month y m =
     (if m = 2 then (if is_leap y then 29 else 28)
      else if m = 4 \<or> m = 6 \<or> m = 9 \<or> m = 11 then 30 else 31)"

definition days_before_month :: "int \<Rightarrow> int \<Rightarrow> int" where
  "days_before_month y m = sum_list (map (days_in_month y) [1..m - 1])"

definition toordinal :: "int \<Rightarrow> int \<Rightarrow> int \<Rightarrow> timestamp" where
  "toordinal y m d = days_before_year y + days_before_month y m + d"

subsection \<open>The raw table and the cleaning chain (\<open>games\<close>)\<close>

datatype error = ValueError | KeyError

text \<open>
  One row of \<^verbatim>\<open>pd.read_csv("data/games.csv.gz")\<close>, with the nine columns of the file's
  header: \<^verbatim>\<open>Date,Start (ET),Unnamed: 2,Visitor/Neutral,PTS,Home/Neutral,PTS.1,Unnamed: 7,Notes\<close>.
  An empty CSV field is read as NaN.
\<close>

record raw_row =
  Date :: "string option"
  Start_ET :: "string option"
  Unnamed_2 :: "string option"
  Visitor_Neutral :: "string option"
  PTS :: "real option"
  Home_Neutral :: "string option"
  PTS_1 :: "real option"
  Unnamed_7 :: "string option"
  Notes :: "string option"

definition notna :: "'a option \<Rightarrow> nat" where
  "notna c = (case c of None \<Rightarrow> 0 | Some _ \<Rightarrow> 1)"

definition count_notna :: "raw_row \<Rightarrow> nat" where
  "count_notna r =
     notna (Date r) + notna (Start_ET r) + notna (Unnamed_2 r) + notna (Visitor_Neutral r)
     + notna (PTS r) + notna (Home_Neutral r) + notna (PTS_1 r) + notna (Unnamed_7 r)
     + notna (Notes r)"

text \<open>
  \<^verbatim>\<open>read_csv\<close> labels the rows \<open>0, 1, 2, \<dots>\<close>; \<^verbatim>\<open>.dropna(thresh=4)\<close> keeps the rows
  that have at least four non-missing cells, with their labels.
\<close>

definition read_csv :: "raw_row list \<Rightarrow> (nat \<times> raw_row) list" where
  "read_csv raw = enumerate 0 raw"

definition dropna_thresh :: "nat \<Rightarrow> (nat \<times> raw_row) list \<Rightarrow> (nat \<times> raw_row) list" where
  "dropna_thresh thresh df = filter (\<lambda>(i, r). thresh \<le> count_notna r) df"

text \<open>
  A row of \<open>games\<close>: the index \<open>(game_id, date)\<close> and the four selected columns.
  \<open>date = None\<close> is NaT.
\<close>

record game =
  game_id :: nat
  date :: "timestamp option"
  away_team :: "string option"
  away_points :: "real option"
  home_team :: "string option"
  home_points :: "real option"

text \<open>
  \<^verbatim>\<open>pd.to_datetime(x['date'], format='%a, %b %d, %Y')\<close>: a missing cell becomes NaT, a
  string that does not match the format raises \<open>ValueError\<close>. The parser of the format
  is the library's; it is the parameter \<open>strptime\<close>, \<open>None\<close> where the string does not
  parse.
\<close>

definition to_datetime :: "(string \<Rightarrow> timestamp option) \<Rightarrow> string option \<Rightarrow> error + timestamp option" where
  "to_datetime strptime c =
     (case c of None \<Rightarrow> Inr None
      | Some s \<Rightarrow> (case strptime s of None \<Rightarrow> Inl ValueError | Some d \<Rightarrow> Inr (Some d)))"

text \<open>
  The column selection, \<^verbatim>\<open>.assign(date=\<dots>)\<close>, \<^verbatim>\<open>.set_index('date', append=True)\<close> and
  \<^verbatim>\<open>.rename_axis(["game_id", "date"])\<close>, row by row; the first date that fails to parse
  aborts the chain.
\<close>

fun assign_date :: "(string \<Rightarrow> timestamp option) \<Rightarrow> (nat \<times> raw_row) list \<Rightarrow> error + game list" where
  "assign_date strptime [] = Inr []"
| "assign_date strptime ((i, r) # df) =
     (case to_datetime strptime (Date r) of
        Inl e \<Rightarrow> Inl e
      | Inr d \<Rightarrow>
          (case assign_date strptime df of
             Inl e \<Rightarrow> Inl e
           | Inr gs \<Rightarrow>
               Inr (\<lparr>game_id = i, date = d,
                     away_team = Visitor_Neutral r, away_points = PTS r,
                     home_team = Home_Neutral r, home_points = PTS_1 r\<rparr> # gs)))"

text \<open>
  \<^verbatim>\<open>.sort_index()\<close> orders the rows by the index \<open>(game_id, date)\<close>. Sorting by a date
  column or index level puts NaT last.
\<close>

definition date_key :: "timestamp option \<Rightarrow> nat \<times> int" where
  "date_key d = (case d of None \<Rightarrow> (1, 0) | Some t \<Rightarrow> (0, t))"

definition games :: "(string \<Rightarrow> timestamp option) \<Rightarrow> raw_row list \<Rightarrow> error + game list" where
  "games strptime raw =
     (case assign_date strptime (dropna_thresh 4 (read_csv raw)) of
        Inl e \<Rightarrow> Inl e
      | Inr gs \<Rightarrow> Inr (sort_key (\<lambda>g. (game_id g, date_key (date g))) gs))"

subsection \<open>Melt (\<open>teams\<close>)\<close>

text \<open>
  The \<open>home_away\<close> column of the melted table holds the name of the column the team
  came from, one of the two \<^verbatim>\<open>value_vars\<close>.
\<close>

datatype role = Away_team | Home_team

record appearance =
  a_game_id :: nat
  a_date :: "timestamp option"
  home_away :: role
  team :: "string option"

text \<open>
  \<^verbatim>\<open>.melt(id_vars=['game_id', 'date'], value_vars=['away_team', 'home_team'], \<dots>)\<close> stacks
  the \<open>away_team\<close> rows of all games over the \<open>home_team\<close> rows of all games.
\<close>

definition away_appearance :: "game \<Rightarrow> appearance" where
  "away_appearance g =
     \<lparr>a_game_id = game_id g, a_date = date g, home_away = Away_team, team = away_team g\<rparr>"

definition home_appearance :: "game \<Rightarrow> appearance" where
  "home_appearance g =
     \<lparr>a_game_id = game_id g, a_date = date g, home_away = Home_team, team = home_team g\<rparr>"

definition melt :: "game list \<Rightarrow> appearance list" where
  "melt gs = map away_appearance gs @ map home_appearance gs"

text \<open>
  \<^verbatim>\<open>.sort_values(['game_id', 'date'])\<close>: a sort on several columns is stable, so the
  away row of a game stays before its home row.
\<close>

definition sort_values :: "appearance list \<Rightarrow> appearance list" where
  "sort_values df = sort_key (\<lambda>a. (a_game_id a, date_key (a_date a))) df"

definition teams :: "game list \<Rightarrow> appearance list" where
  "teams gs = sort_values (melt gs)"

subsection \<open>Rest days (\<open>rest\<close>)\<close>

text \<open>
  \<^verbatim>\<open>bulls = teams[teams['team'] == 'Chicago Bulls']\<close> and
  \<^verbatim>\<open>bulls['date'].diff().dt.days - 1\<close>: \<open>diff\<close> subtracts from each date the date of the
  row before it; the first row, and a row where either date is NaT, get NaT, whose
  \<open>days\<close> is NaN.
\<close>

definition timedelta_days :: "timestamp option \<Rightarrow> timestamp option \<Rightarrow> int option" where
  "timedelta_days cur prev =
     (case cur of None \<Rightarrow> None
      | Some c \<Rightarrow> (case prev of None \<Rightarrow> None | Some p \<Rightarrow> Some (c - p)))"

fun diff_days :: "timestamp option list \<Rightarrow> int option list" where
  "diff_days [] = []"
| "diff_days (d # ds) = None # map2 timedelta_days ds (d # ds)"

definition minus_one :: "int option \<Rightarrow> int option" where
  "minus_one v = map_option (\<lambda>n. n - 1) v"

definition bulls :: "appearance list \<Rightarrow> appearance list" where
  "bulls df = filter (\<lambda>a. team a = Some ''Chicago Bulls'') df"

definition bulls_rest :: "appearance list \<Rightarrow> int option list" where
  "bulls_rest df = map minus_one (diff_days (map a_date (bulls df)))"

text \<open>
  Modelled from the spec: the cell \<^verbatim>\<open>rest = teams.groupby(...)...\<close> is a placeholder whose
  body, \<^verbatim>\<open>solutions/tidy_groupby_rest.py\<close>, is missing. The spec's Rest-Days Calculator
  partitions the appearances by team name and gives each appearance after the first of
  its partition \<open>(date[i] - date[i-1]).days - 1\<close>, the first one a missing value; the
  comment above the placeholder names the steps (group, select \<open>date\<close>, \<open>diff\<close>,
  \<open>days\<close>, subtract 1). The frame is walked once in its row order; \<open>prev\<close> holds, for
  each team seen so far, the date of its latest row. A row without a team name belongs
  to no group and gets a missing value.
\<close>

fun groupby_diff :: "(string \<rightharpoonup> timestamp option) \<Rightarrow> appearance list \<Rightarrow> int option list" where
  "groupby_diff prev [] = []"
| "groupby_diff prev (a # df) =
     (case team a of
        None \<Rightarrow> None # groupby_diff prev df
      | Some t \<Rightarrow>
          (case prev t of None \<Rightarrow> None | Some p \<Rightarrow> minus_one (timedelta_days (a_date a) p))
          # groupby_diff (prev(t \<mapsto> a_date a)) df)"

definition rest :: "appearance list \<Rightarrow> int option list" where
  "rest df = groupby_diff Map.empty df"

text \<open>
  \<^verbatim>\<open>teams['rest'] = rest\<close>: \<open>rest\<close> has the index of \<open>teams\<close>, in the same order, so
  the assignment pairs the rows by position.
\<close>

definition teams_rest :: "game list \<Rightarrow> (appearance \<times> int option) list" where
  "teams_rest gs = zip (teams gs) (rest (teams gs))"

subsection \<open>Pivot (\<open>by_game\<close>)\<close>

text \<open>
  \<^verbatim>\<open>pd.pivot_table(teams, values='rest', index=['game_id', 'date'], columns='home_away')\<close>
  groups the rows by \<open>(game_id, date, home_away)\<close> and takes the mean of \<open>rest\<close> in each
  group. A row whose \<open>date\<close> is NaT is in no group; the mean skips missing values and
  is missing when the group has no other.
\<close>

type_synonym game_key = "nat \<times> timestamp"

definition group_keys :: "(appearance \<times> int option) list \<Rightarrow> (game_key \<times> role) list" where
  "group_keys df =
     remdups (concat (map (\<lambda>(a, r). case a_date a of None \<Rightarrow> []
                                      | Some d \<Rightarrow> [((a_game_id a, d), home_away a)]) df))"

definition group_values :: "(appearance \<times> int option) list \<Rightarrow> game_key \<times> role \<Rightarrow> int list" where
  "group_values df g =
     concat (map (\<lambda>(a, r). case r of None \<Rightarrow> []
                             | Some v \<Rightarrow>
                                 if a_date a = Some (snd (fst g)) \<and> a_game_id a = fst (fst g)
                                    \<and> home_away a = snd g
                                 then [v] else []) df)"

definition mean :: "int list \<Rightarrow> real option" where
  "mean vs = (if vs = [] then None else Some (real_of_int (sum_list vs) / real (length vs)))"

text \<open>
  \<^verbatim>\<open>agged = grouped.agg('mean')\<close>, then \<^verbatim>\<open>agged.dropna(how="all")\<close>, which
  \<open>pivot_table\<close> applies under its default \<^verbatim>\<open>dropna=True\<close>: the groups whose mean is
  missing are removed before the table is unstacked.
\<close>

definition agged :: "(appearance \<times> int option) list \<Rightarrow> ((game_key \<times> role) \<times> real) list" where
  "agged df =
     concat (map (\<lambda>g. case mean (group_values df g) of None \<Rightarrow> [] | Some m \<Rightarrow> [(g, m)])
                 (group_keys df))"

text \<open>
  The wide table: one row for each \<open>(game_id, date)\<close> that is left in \<open>agged\<close>, in index
  order, and one column for each \<open>home_away\<close> value that is left in \<open>agged\<close>; a value of
  \<open>home_away\<close> with no defined mean in any game has no column.
  \<^verbatim>\<open>.rename(columns={'away_team': 'away_rest', 'home_team': 'home_rest'})\<close> renames the
  columns; the cells of a row are the fields \<open>away_rest\<close> and \<open>home_rest\<close>, and
  \<open>bg_columns\<close> says which of the two columns the table has.
\<close>

record rests =
  away_rest :: "real option"
  home_rest :: "real option"

record by_game_table =
  bg_columns :: "role list"
  bg_rows :: "(game_key \<times> rests) list"

definition by_game :: "(appearance \<times> int option) list \<Rightarrow> by_game_table" where
  "by_game df =
     (let t = agged df in
      \<lparr>bg_columns = filter (\<lambda>c. c \<in> snd ` fst ` set t) [Away_team, Home_team],
       bg_rows = map (\<lambda>k. (k, \<lparr>away_rest = map_of t (k, Away_team),
                                 home_rest = map_of t (k, Home_team)\<rparr>))
                     (sort (remdups (map (fst \<circ> fst) t)))\<rparr>)"

subsection \<open>Join (\<open>games_rest\<close>)\<close>

text \<open>
  \<^verbatim>\<open>pd.concat([games, by_game], axis='columns')\<close> aligns the two tables on their index
  \<open>(game_id, date)\<close>; every key of \<open>by_game\<close> is a key of \<open>games\<close>, so the result has the
  rows of \<open>games\<close>, with missing rest cells where \<open>by_game\<close> has no row.
  \<^verbatim>\<open>.dropna()\<close> then removes each row that has a missing cell in a column of the table.
\<close>

record games_rest_table =
  gr_columns :: "role list"
  gr_rows :: "(game \<times> rests) list"

definition concat_columns :: "game list \<Rightarrow> by_game_table \<Rightarrow> (game \<times> rests) list" where
  "concat_columns gs bg =
     map (\<lambda>g. (g, case date g of
                     None \<Rightarrow> \<lparr>away_rest = None, home_rest = None\<rparr>
                   | Some d \<Rightarrow>
                       (case map_of (bg_rows bg) (game_id g, d) of
                          None \<Rightarrow> \<lparr>away_rest = None, home_rest = None\<rparr>
                        | Some rs \<Rightarrow> rs))) gs"

definition notna_row :: "role list \<Rightarrow> game \<times> rests \<Rightarrow> bool" where
  "notna_row cols row =
     (away_team (fst row) \<noteq> None \<and> away_points (fst row) \<noteq> None
      \<and> home_team (fst row) \<noteq> None \<and> home_points (fst row) \<noteq> None
      \<and> (Away_team \<in> set cols \<longrightarrow> away_rest (snd row) \<noteq> None)
      \<and> (Home_team \<in> set cols \<longrightarrow> home_rest (snd row) \<noteq> None))"

definition games_rest :: "game list \<Rightarrow> games_rest_table" where
  "games_rest gs =
     (let bg = by_game (teams_rest gs) in
      \<lparr>gr_columns = bg_columns bg,
       gr_rows = filter (notna_row (bg_columns bg)) (concat_columns gs bg)\<rparr>)"

subsection \<open>Melting the wide table again\<close>

text \<open>
  Modelled from the spec: the notebook never melts \<open>by_game\<close>; the spec's round trip
  "re-widening then re-melting" is the melt of the notebook applied to the wide table,
  \<^verbatim>\<open>by_game.reset_index().melt(id_vars=['game_id', 'date'], value_vars=['away_rest', 'home_rest'])\<close>.
  \<open>melt\<close> raises \<open>KeyError\<close> when a column of \<^verbatim>\<open>value_vars\<close> is not in the table.
\<close>

definition remelt :: "by_game_table \<Rightarrow> error + (game_key \<times> role \<times> real option) list" where
  "remelt bg =
     (if Away_team \<in> set (bg_columns bg) \<and> Home_team \<in> set (bg_columns bg)
      then Inr (map (\<lambda>(k, rs). (k, Away_team, away_rest rs)) (bg_rows bg)
                @ map (\<lambda>(k, rs). (k, Home_team, home_rest rs)) (bg_rows bg))
      else Inl KeyError)"

subsection \<open>Rest advantage\<close>







subsection \<open>Example inputs\<close>

text \<open>
  The Bulls of the notebook's sample: at home on 2015-10-27, next away on 2015-10-30.
\<close>

definition ex_g1 :: game where
  "ex_g1 = \<lparr>game_id = 1, date = Some (toordinal 2015 10 27),
            away_team = Some ''Cleveland Cavaliers'', away_points = Some 95,
            home_team = Some ''Chicago Bulls'', home_points = Some 97\<rparr>"

definition ex_g2 :: game where
  "ex_g2 = \<lparr>game_id = 2, date = Some (toordinal 2015 10 30),
            away_team = Some ''Chicago Bulls'', away_points = Some 93,
            home_team = Some ''Detroit Pistons'', home_points = Some 98\<rparr>"

text \<open>
  The same two games with the file's rows in the other order: the later game comes
  first in the file, so it has the smaller \<open>game_id\<close>.
\<close>

definition ex_late :: game where
  "ex_late = \<lparr>game_id = 1, date = Some (toordinal 2015 10 30),
              away_team = Some ''Chicago Bulls'', away_points = Some 93,
              home_team = Some ''Detroit Pistons'', home_points = Some 98\<rparr>"

definition ex_early :: game where
  "ex_early = \<lparr>game_id = 2, date = Some (toordinal 2015 10 27),
               away_team = Some ''Cleveland Cavaliers'', away_points = Some 95,
               home_team = Some ''Chicago Bulls'', home_points = Some 97\<rparr>"


text \<open>
  The first lines of the file, as the notebook shows them: the month separator
  \<^verbatim>\<open>October,,,,,,,,\<close> and two games. \<open>ex_strptime\<close> reads the two dates of the
  example and rejects every other string, the separator's \<^verbatim>\<open>October\<close> among them.
\<close>

definition ex_october :: raw_row where
  "ex_october = \<lparr>Date = Some ''October'', Start_ET = None, Unnamed_2 = None,
                 Visitor_Neutral = None, PTS = None, Home_Neutral = None, PTS_1 = None,
                 Unnamed_7 = None, Notes = None\<rparr>"

definition ex_raw1 :: raw_row where
  "ex_raw1 = \<lparr>Date = Some ''Tue, Oct 27, 2015'', Start_ET = Some ''8:00 pm'',
              Unnamed_2 = Some ''Box Score'', Visitor_Neutral = Some ''Cleveland Cavaliers'',
              PTS = Some 95, Home_Neutral = Some ''Chicago Bulls'', PTS_1 = Some 97,
              Unnamed_7 = None, Notes = None\<rparr>"

definition ex_raw2 :: raw_row where
  "ex_raw2 = \<lparr>Date = Some ''Fri, Oct 30, 2015'', Start_ET = Some ''7:30 pm'',
              Unnamed_2 = Some ''Box Score'', Visitor_Neutral = Some ''Chicago Bulls'',
              PTS = Some 93, Home_Neutral = Some ''Detroit Pistons'', PTS_1 = Some 98,
              Unnamed_7 = None, Notes = None\<rparr>"

definition ex_strptime :: "string \<Rightarrow> timestamp option" where
  "ex_strptime s =
     (if s = ''Tue, Oct 27, 2015'' then Some (toordinal 2015 10 27)
      else if s = ''Fri, Oct 30, 2015'' then Some (toordinal 2015 10 30)
      else None)"

text \<open>
  Two more games: one on 2015-11-01 that has no score yet (the points are missing), and
  one on 2015-11-03.
\<close>

definition ex_g3 :: game where
  "ex_g3 = \<lparr>game_id = 3, date = Some (toordinal 2015 11 1),
            away_team = Some ''Cleveland Cavaliers'', away_points = None,
            home_team = Some ''Chicago Bulls'', home_points = None\<rparr>"

definition ex_g4 :: game where
  "ex_g4 = \<lparr>game_id = 4, date = Some (toordinal 2015 11 3),
            away_team = Some ''Detroit Pistons'', away_points = Some 101,
            home_team = Some ''Cleveland Cavaliers'', home_points = Some 99\<rparr>"

text \<open>
  A game whose row has no date: the \<open>Date\<close> field of the file is empty and six other
  fields are present, so \<open>dropna(thresh=4)\<close> keeps the row and \<open>to_datetime\<close> gives NaT.
\<close>

definition ex_raw_nodate :: raw_row where
  "ex_raw_nodate = \<lparr>Date = None, Start_ET = Some ''7:30 pm'',
              Unnamed_2 = Some ''Box Score'', Visitor_Neutral = Some ''Chicago Bulls'',
              PTS = Some 93, Home_Neutral = Some ''Detroit Pistons'', PTS_1 = Some 98,
              Unnamed_7 = None, Notes = None\<rparr>"

definition ex_nodate :: game where
  "ex_nodate = \<lparr>game_id = 2, date = None,
                away_team = Some ''Chicago Bulls'', away_points = Some 93,
                home_team = Some ''Detroit Pistons'', home_points = Some 98\<rparr>"




section \<open>Properties\<close>

subsection \<open>Melt\<close>

lemma mset_teams:
  "mset (teams gs) = mset (map away_appearance gs) + mset (map home_appearance gs)"
  by (simp add: teams_def sort_values_def melt_def)

lemma set_teams: "set (teams gs) = away_appearance ` set gs \<union> home_appearance ` set gs"
  by (simp add: teams_def sort_values_def melt_def)

subsection \<open>Dates of the examples\<close>

lemma toordinal_simps: "toordinal 2015 10 27 = 735898" "toordinal 2015 10 30 = 735901"
  by (simp_all add: toordinal_def days_before_year_def days_before_month_def days_in_month_def is_leap_def upto.simps)

subsection \<open>The reshaper\<close>

lemma filter_eq_singleton:
  "distinct (map f xs) \<Longrightarrow> x \<in> set xs \<Longrightarrow> filter (\<lambda>y. f y = f x) xs = [x]"
proof (induction xs)
  case Nil
  then show ?case by simp
next
  case (Cons y ys)
  show ?case
  proof (cases "y = x")
    case True
    have "f x \<notin> f ` set ys"
      using Cons.prems(1) True by simp
    then have "filter (\<lambda>z. f z = f x) ys = []"
      by (simp add: filter_empty_conv) (metis imageI)
    with True show ?thesis by simp
  next
    case False
    with Cons.prems have "x \<in> set ys" "f y \<noteq> f x" by auto
    with Cons show ?thesis by simp
  qed
qed

lemma filter_teams:
  "filter (\<lambda>a. a_game_id a = k) (teams gs) =
     sort_values (map away_appearance (filter (\<lambda>g. game_id g = k) gs)
                  @ map home_appearance (filter (\<lambda>g. game_id g = k) gs))"
  by (simp add: teams_def sort_values_def melt_def filter_sort filter_map
      away_appearance_def home_appearance_def comp_def)

lemma teams_of_game:
  assumes "distinct (map game_id gs)" and "g \<in> set gs"
  shows "filter (\<lambda>a. a_game_id a = game_id g) (teams gs) = [away_appearance g, home_appearance g]"
  using filter_eq_singleton [OF assms]
  by (simp add: filter_teams sort_values_def away_appearance_def home_appearance_def)

text \<open>
  C3. The melt yields exactly two appearances for each game, one with role away and one
  with role home, each carrying the game's id, its date and the team of that role; the
  ids in \<open>teams\<close> are the ids in \<open>games\<close>. With pairwise different ids the rows of a
  game are these two and no other.
\<close>

theorem reshaper_two_appearances_per_game:
  "mset (teams gs) = mset (map away_appearance gs) + mset (map home_appearance gs)
   \<and> length (teams gs) = 2 * length gs
   \<and> (\<forall>g \<in> set gs.
        \<lparr>a_game_id = game_id g, a_date = date g, home_away = Away_team, team = away_team g\<rparr>
          \<in> set (teams gs)
        \<and> \<lparr>a_game_id = game_id g, a_date = date g, home_away = Home_team, team = home_team g\<rparr>
          \<in> set (teams gs))
   \<and> (\<forall>k. length (filter (\<lambda>a. a_game_id a = k) (teams gs))
            = 2 * length (filter (\<lambda>g. game_id g = k) gs))
   \<and> (distinct (map game_id gs) \<longrightarrow>
        (\<forall>g \<in> set gs. filter (\<lambda>a. a_game_id a = game_id g) (teams gs)
                        = [away_appearance g, home_appearance g]))
   \<and> a_game_id ` set (teams gs) = game_id ` set gs"
proof -
  have len: "length (teams gs) = 2 * length gs"
    by (simp add: teams_def sort_values_def melt_def)
  have mem: "\<forall>g \<in> set gs. away_appearance g \<in> set (teams gs) \<and> home_appearance g \<in> set (teams gs)"
    by (simp add: set_teams)
  have cnt: "\<forall>k. length (filter (\<lambda>a. a_game_id a = k) (teams gs))
            = 2 * length (filter (\<lambda>g. game_id g = k) gs)"
    by (simp add: filter_teams sort_values_def)
  have ids: "a_game_id ` set (teams gs) = game_id ` set gs"
    by (auto simp: set_teams away_appearance_def home_appearance_def image_Un image_image)
  show ?thesis
    using len mem cnt ids mset_teams [of gs] teams_of_game [of gs]
    by (simp add: away_appearance_def home_appearance_def)
qed

theorem reshaper_two_appearances_per_game_witness:
  "distinct (map game_id [ex_g1, ex_g2]) \<and> ex_g2 \<in> set [ex_g1, ex_g2]
   \<and> filter (\<lambda>a. a_game_id a = 2) (teams [ex_g1, ex_g2])
       = [\<lparr>a_game_id = 2, a_date = Some 735901, home_away = Away_team, team = Some ''Chicago Bulls''\<rparr>,
          \<lparr>a_game_id = 2, a_date = Some 735901, home_away = Home_team, team = Some ''Detroit Pistons''\<rparr>]
   \<and> length (teams [ex_g1, ex_g2]) = 4"
  using reshaper_two_appearances_per_game [of "[ex_g1, ex_g2]"]
  by (simp add: ex_g1_def ex_g2_def away_appearance_def home_appearance_def toordinal_simps)


subsection \<open>The order of the appearances\<close>

lemma sorted_teams:
  "sorted (map (\<lambda>a. (a_game_id a, date_key (a_date a))) (teams gs))"
  by (simp add: teams_def sort_values_def)

lemma sorted_partition:
  "sorted (map (\<lambda>a. (a_game_id a, date_key (a_date a))) (filter P (teams gs)))"
  using sorted_teams [of gs] by (simp add: sorted_map sorted_wrt_filter)

lemma appearance_of_game:
  "a \<in> set (teams gs) \<Longrightarrow> \<exists>g \<in> set gs. a_game_id a = game_id g \<and> a_date a = date g"
  by (auto simp: set_teams away_appearance_def home_appearance_def)

lemma chronological_teams:
  assumes chron: "\<forall>g \<in> set gs. \<forall>g' \<in> set gs.
            game_id g \<le> game_id g' \<longrightarrow> date_key (date g) \<le> date_key (date g')"
  shows "sorted (map (\<lambda>a. date_key (a_date a)) (filter P (teams gs)))"
proof -
  have "sorted_wrt (\<lambda>a b. (a_game_id a, date_key (a_date a)) \<le> (a_game_id b, date_key (a_date b)))
          (teams gs)"
    using sorted_teams [of gs] by (simp add: sorted_map)
  then have "sorted_wrt (\<lambda>a b. date_key (a_date a) \<le> date_key (a_date b)) (teams gs)"
  proof (rule sorted_wrt_mono_rel [rotated])
    fix a b
    assume a: "a \<in> set (teams gs)" and b: "b \<in> set (teams gs)"
      and le: "(a_game_id a, date_key (a_date a)) \<le> (a_game_id b, date_key (a_date b))"
    from a obtain g where g: "g \<in> set gs" "a_game_id a = game_id g" "a_date a = date g"
      using appearance_of_game by blast
    from b obtain g' where g': "g' \<in> set gs" "a_game_id b = game_id g'" "a_date b = date g'"
      using appearance_of_game by blast
    from le have "game_id g \<le> game_id g'"
      using g g' by (auto simp: less_eq_prod_def)
    with chron g g' show "date_key (a_date a) \<le> date_key (a_date b)"
      by simp
  qed
  then show ?thesis
    by (simp add: sorted_map sorted_wrt_filter)
qed

text \<open>
  C5, as stated, at a file whose rows are not in date order: the Bulls' partition has the
  later date first.
\<close>

theorem partition_order_by_date_counterexample:
  "map a_date (bulls (teams [ex_late, ex_early])) = [Some 735901, Some 735898]
   \<and> \<not> sorted (map (date_key \<circ> a_date) (bulls (teams [ex_late, ex_early])))"
  by (simp add: bulls_def teams_def sort_values_def melt_def away_appearance_def
      home_appearance_def ex_late_def ex_early_def toordinal_simps date_key_def less_eq_prod_def)

text \<open>
  C5, amended. Before the per-team diff the appearances, and so the rows of each team,
  are in the order of \<^verbatim>\<open>sort_values(['game_id', 'date'])\<close>: by game id ascending, rows of
  one id by date ascending. The dates of a team ascend whenever the dates of the games
  ascend with their ids, that is, when the file lists the games in date order.
\<close>

theorem partition_order_by_game_id:
  "sorted (map (\<lambda>a. (a_game_id a, date_key (a_date a)))
               (filter (\<lambda>a. team a = Some t) (teams gs)))
   \<and> ((\<forall>g \<in> set gs. \<forall>g' \<in> set gs.
          game_id g \<le> game_id g' \<longrightarrow> date_key (date g) \<le> date_key (date g'))
        \<longrightarrow> sorted (map (\<lambda>a. date_key (a_date a)) (filter (\<lambda>a. team a = Some t) (teams gs))))"
  using sorted_partition [of _ gs] chronological_teams [of gs] by blast

theorem partition_order_by_game_id_witness:
  "map game_id [ex_g1, ex_g2] = [1, 2]
   \<and> map date [ex_g1, ex_g2] = [Some 735898, Some 735901]
   \<and> sorted (map (\<lambda>a. date_key (a_date a))
               (filter (\<lambda>a. team a = Some ''Chicago Bulls'') (teams [ex_g1, ex_g2])))
   \<and> map a_date (filter (\<lambda>a. team a = Some ''Chicago Bulls'') (teams [ex_g1, ex_g2]))
       = [Some 735898, Some 735901]"
proof -
  have chron: "\<forall>g \<in> set [ex_g1, ex_g2]. \<forall>g' \<in> set [ex_g1, ex_g2].
      game_id g \<le> game_id g' \<longrightarrow> date_key (date g) \<le> date_key (date g')"
    by (simp add: ex_g1_def ex_g2_def toordinal_simps date_key_def less_eq_prod_def)
  have games: "map game_id [ex_g1, ex_g2] = [1, 2]"
    "map date [ex_g1, ex_g2] = [Some 735898, Some 735901]"
    by (simp_all add: ex_g1_def ex_g2_def toordinal_simps)
  have dates: "map a_date (filter (\<lambda>a. team a = Some ''Chicago Bulls'') (teams [ex_g1, ex_g2]))
       = [Some 735898, Some 735901]"
    by (simp add: teams_def sort_values_def melt_def away_appearance_def home_appearance_def
        ex_g1_def ex_g2_def toordinal_simps date_key_def less_eq_prod_def)
  from chron partition_order_by_game_id [of "''Chicago Bulls''" "[ex_g1, ex_g2]"]
  have "sorted (map (\<lambda>a. date_key (a_date a))
               (filter (\<lambda>a. team a = Some ''Chicago Bulls'') (teams [ex_g1, ex_g2])))"
    by blast
  with games dates show ?thesis
    by (intro conjI)
qed


subsection \<open>The cleaning chain\<close>

lemma assign_date_Inr:
  "assign_date p df = Inr gs \<Longrightarrow> map game_id gs = map fst df"
proof (induction df arbitrary: gs)
  case Nil
  then show ?case by simp
next
  case (Cons x df)
  obtain i r where x: "x = (i, r)" by (cases x)
  from Cons.prems obtain d gs' where
    "assign_date p df = Inr gs'" and "game_id (hd gs) = i" and "gs = hd gs # gs'"
    unfolding x by (auto split: sum.splits)
  with Cons.IH [of gs'] show ?case
    unfolding x by (metis fst_conv list.simps(9))
qed

lemma assign_date_total:
  "\<forall>(i, r) \<in> set df. \<forall>s. Date r = Some s \<longrightarrow> p s \<noteq> None
   \<Longrightarrow> \<exists>gs. assign_date p df = Inr gs"
proof (induction df)
  case Nil
  then show ?case by simp
next
  case (Cons x df)
  obtain i r where x: "x = (i, r)" by (cases x)
  from Cons obtain gs where gs: "assign_date p df = Inr gs" by auto
  from Cons.prems have "\<exists>d. to_datetime p (Date r) = Inr d"
    unfolding x by (auto simp: to_datetime_def split: option.splits)
  with gs show ?case unfolding x by auto
qed

lemma map_fst_filter: "map fst (filter (\<lambda>x. Q (fst x)) zs) = filter Q (map fst zs)"
  by (induction zs) auto

lemma map_snd_filter: "map snd (filter (\<lambda>x. Q (snd x)) zs) = filter Q (map snd zs)"
  by (induction zs) auto

lemma map_fst_dropna:
  "map fst (dropna_thresh n (read_csv raw)) = filter (\<lambda>i. n \<le> count_notna (raw ! i)) [0..<length raw]"
proof -
  have "filter (\<lambda>(i, r). n \<le> count_notna r) (enumerate 0 raw)
        = filter (\<lambda>x. n \<le> count_notna (raw ! fst x)) (enumerate 0 raw)"
    by (rule filter_cong) (auto simp: in_set_enumerate_eq)
  then have "map fst (dropna_thresh n (read_csv raw))
        = filter (\<lambda>i. n \<le> count_notna (raw ! i)) (map fst (enumerate 0 raw))"
    using map_fst_filter [of "\<lambda>i. n \<le> count_notna (raw ! i)" "enumerate 0 raw"]
    by (simp add: dropna_thresh_def read_csv_def)
  then show ?thesis by simp
qed

lemma length_dropna:
  "length (dropna_thresh n (read_csv raw)) = length (filter (\<lambda>r. n \<le> count_notna r) raw)"
proof -
  have "map snd (dropna_thresh n (read_csv raw)) = filter (\<lambda>r. n \<le> count_notna r) (map snd (enumerate 0 raw))"
    using map_snd_filter [of "\<lambda>r. n \<le> count_notna r" "enumerate 0 raw"]
    by (simp add: dropna_thresh_def read_csv_def case_prod_unfold)
  then have "length (map snd (dropna_thresh n (read_csv raw))) = length (filter (\<lambda>r. n \<le> count_notna r) raw)"
    by simp
  then show ?thesis by simp
qed

lemma sorted_index_key:
  "sorted_wrt (<) (map f xs) \<Longrightarrow> sorted (map (\<lambda>x. (f x :: nat, k x :: nat \<times> int)) xs)"
  by (induction xs) (auto simp: less_eq_prod_def)

lemma games_Inr:
  assumes "games p raw = Inr gs"
  shows "assign_date p (dropna_thresh 4 (read_csv raw)) = Inr gs"
    and "map game_id gs = filter (\<lambda>i. 4 \<le> count_notna (raw ! i)) [0..<length raw]"
proof -
  from assms obtain gs' where gs': "assign_date p (dropna_thresh 4 (read_csv raw)) = Inr gs'"
    and gs: "gs = sort_key (\<lambda>g. (game_id g, date_key (date g))) gs'"
    by (auto simp: games_def split: sum.splits)
  have ids: "map game_id gs' = filter (\<lambda>i. 4 \<le> count_notna (raw ! i)) [0..<length raw]"
    using assign_date_Inr [OF gs'] by (simp add: map_fst_dropna)
  have "sorted_wrt (<) (map game_id gs')"
    unfolding ids by (rule sorted_wrt_filter) simp
  then have "gs = gs'"
    unfolding gs by (intro sort_key_id_if_sorted sorted_index_key)
  with gs' ids show "assign_date p (dropna_thresh 4 (read_csv raw)) = Inr gs"
    and "map game_id gs = filter (\<lambda>i. 4 \<le> count_notna (raw ! i)) [0..<length raw]"
    by simp_all
qed

lemma distinct_game_id:
  "games p raw = Inr gs \<Longrightarrow> distinct (map game_id gs)"
  by (simp add: games_Inr(2))

lemma length_games:
  assumes "games p raw = Inr gs"
  shows "length gs = length (filter (\<lambda>r. 4 \<le> count_notna r) raw)"
proof -
  have "length (map game_id gs) = length (map fst (dropna_thresh 4 (read_csv raw)))"
    using assign_date_Inr [OF games_Inr(1) [OF assms]] by simp
  then show ?thesis by (simp add: length_dropna)
qed

lemma games_total:
  assumes "\<forall>r \<in> set raw. 4 \<le> count_notna r \<longrightarrow> (\<forall>s. Date r = Some s \<longrightarrow> p s \<noteq> None)"
  shows "\<exists>gs. games p raw = Inr gs"
proof -
  have "\<forall>(i, r) \<in> set (dropna_thresh 4 (read_csv raw)). \<forall>s. Date r = Some s \<longrightarrow> p s \<noteq> None"
    using assms by (auto simp: dropna_thresh_def read_csv_def in_set_enumerate_eq)
  from assign_date_total [OF this] show ?thesis
    by (auto simp: games_def)
qed


subsection \<open>The pivot\<close>

lemma length_groupby_diff: "length (groupby_diff prev df) = length df"
  by (induction df arbitrary: prev) (auto split: option.splits)

lemma length_rest: "length (rest df) = length df"
  by (simp add: rest_def length_groupby_diff)

lemma map_fst_teams_rest: "map fst (teams_rest gs) = teams gs"
  by (simp add: teams_rest_def length_rest)

lemma group_values_empty_iff:
  "group_values df g \<noteq> [] \<longleftrightarrow>
     (\<exists>(a, r) \<in> set df. r \<noteq> None \<and> a_date a = Some (snd (fst g))
                          \<and> a_game_id a = fst (fst g) \<and> home_away a = snd g)"
  by (induction df) (auto simp: group_values_def split: option.splits)

lemma group_keys_iff:
  "g \<in> set (group_keys df) \<longleftrightarrow>
     (\<exists>(a, r) \<in> set df. a_date a = Some (snd (fst g))
                          \<and> a_game_id a = fst (fst g) \<and> home_away a = snd g)"
  by (induction df) (auto simp: group_keys_def split: option.splits)

lemma map_fst_agged:
  "map fst (agged df) = filter (\<lambda>g. group_values df g \<noteq> []) (group_keys df)"
proof -
  have "map fst (concat (map (\<lambda>g. case mean (group_values df g) of None \<Rightarrow> [] | Some m \<Rightarrow> [(g, m)]) ks))
        = filter (\<lambda>g. group_values df g \<noteq> []) ks" for ks
    by (induction ks) (auto simp: mean_def)
  then show ?thesis by (simp add: agged_def)
qed

lemma distinct_agged: "distinct (map fst (agged df))"
  by (simp add: map_fst_agged group_keys_def)

lemma agged_keys_iff:
  "g \<in> fst ` set (agged df) \<longleftrightarrow> group_values df g \<noteq> []"
proof -
  have "g \<in> set (map fst (agged df)) \<longleftrightarrow> group_values df g \<noteq> []"
    unfolding map_fst_agged using group_values_empty_iff [of df g] group_keys_iff [of g df]
    by auto
  then show ?thesis by simp
qed

lemma set_agged:
  "(g, m) \<in> set (agged df) \<longleftrightarrow> mean (group_values df g) = Some m \<and> g \<in> set (group_keys df)"
  by (auto simp: agged_def split: option.splits)

lemma map_of_agged: "map_of (agged df) g = mean (group_values df g)"
proof (cases "group_values df g = []")
  case True
  then have "g \<notin> fst ` set (agged df)" by (simp add: agged_keys_iff)
  then have "map_of (agged df) g = None" by (simp add: map_of_eq_None_iff)
  with True show ?thesis by (simp add: mean_def)
next
  case False
  then have "g \<in> fst ` set (agged df)" by (simp add: agged_keys_iff)
  then obtain m where m: "(g, m) \<in> set (agged df)" by auto
  then have "map_of (agged df) g = Some m"
    using distinct_agged [of df] by simp
  with m show ?thesis by (simp add: set_agged)
qed

lemma map_fst_bg_rows:
  "map fst (bg_rows (by_game df)) = sort (remdups (map (fst \<circ> fst) (agged df)))"
  by (simp add: by_game_def Let_def comp_def)

lemma bg_keys_iff:
  "k \<in> fst ` set (bg_rows (by_game df)) \<longleftrightarrow>
     (\<exists>c. group_values df (k, c) \<noteq> [])"
proof -
  have "k \<in> set (map fst (bg_rows (by_game df))) \<longleftrightarrow> (\<exists>c. (k, c) \<in> fst ` set (agged df))"
    unfolding map_fst_bg_rows by force
  then show ?thesis by (simp add: agged_keys_iff)
qed

lemma bg_columns_iff:
  "c \<in> set (bg_columns (by_game df)) \<longleftrightarrow> (\<exists>k. group_values df (k, c) \<noteq> [])"
proof -
  have "c \<in> set (bg_columns (by_game df)) \<longleftrightarrow> (\<exists>k. (k, c) \<in> fst ` set (agged df))"
    by (cases c) (force simp: by_game_def Let_def)+
  then show ?thesis by (simp add: agged_keys_iff)
qed

lemma map_of_bg_rows:
  "map_of (bg_rows (by_game df)) k =
     (if \<exists>c. group_values df (k, c) \<noteq> []
      then Some \<lparr>away_rest = mean (group_values df (k, Away_team)),
                 home_rest = mean (group_values df (k, Home_team))\<rparr>
      else None)"
proof -
  let ?ks = "sort (remdups (map (fst \<circ> fst) (agged df)))"
  let ?f = "\<lambda>k. \<lparr>away_rest = map_of (agged df) (k, Away_team),
                  home_rest = map_of (agged df) (k, Home_team)\<rparr>"
  have rows: "bg_rows (by_game df) = map (\<lambda>k. (k, ?f k)) ?ks"
    by (simp add: by_game_def Let_def)
  have "map_of (map (\<lambda>k. (k, ?f k)) ?ks) k = (if k \<in> set ?ks then Some (?f k) else None)"
    by (simp add: map_of_map_restrict restrict_map_def)
  moreover have "k \<in> set ?ks \<longleftrightarrow> (\<exists>c. group_values df (k, c) \<noteq> [])"
    using bg_keys_iff [of k df] unfolding map_fst_bg_rows [symmetric] by simp
  ultimately show ?thesis
    unfolding rows by (simp add: map_of_agged)
qed


subsection \<open>The two-game example, step by step\<close>

lemma games_example:
  "games ex_strptime [ex_october, ex_raw1, ex_raw2] = Inr [ex_g1, ex_g2]"
  by (simp add: games_def read_csv_def dropna_thresh_def enumerate_eq_zip upt_rec count_notna_def notna_def
      ex_october_def ex_raw1_def ex_raw2_def ex_strptime_def to_datetime_def ex_g1_def ex_g2_def
      date_key_def less_eq_prod_def)

lemma teams_example:
  "teams [ex_g1, ex_g2] =
     [\<lparr>a_game_id = 1, a_date = Some 735898, home_away = Away_team, team = Some ''Cleveland Cavaliers''\<rparr>,
      \<lparr>a_game_id = 1, a_date = Some 735898, home_away = Home_team, team = Some ''Chicago Bulls''\<rparr>,
      \<lparr>a_game_id = 2, a_date = Some 735901, home_away = Away_team, team = Some ''Chicago Bulls''\<rparr>,
      \<lparr>a_game_id = 2, a_date = Some 735901, home_away = Home_team, team = Some ''Detroit Pistons''\<rparr>]"
  by (simp add: teams_def sort_values_def melt_def away_appearance_def home_appearance_def
      ex_g1_def ex_g2_def toordinal_simps date_key_def less_eq_prod_def)

lemma teams_rest_example:
  "teams_rest [ex_g1, ex_g2] =
     [(\<lparr>a_game_id = 1, a_date = Some 735898, home_away = Away_team, team = Some ''Cleveland Cavaliers''\<rparr>, None),
      (\<lparr>a_game_id = 1, a_date = Some 735898, home_away = Home_team, team = Some ''Chicago Bulls''\<rparr>, None),
      (\<lparr>a_game_id = 2, a_date = Some 735901, home_away = Away_team, team = Some ''Chicago Bulls''\<rparr>, Some 2),
      (\<lparr>a_game_id = 2, a_date = Some 735901, home_away = Home_team, team = Some ''Detroit Pistons''\<rparr>, None)]"
  unfolding teams_rest_def teams_example rest_def
  by (simp add: minus_one_def timedelta_days_def)

lemma agged_example:
  "agged (teams_rest [ex_g1, ex_g2]) = [(((2, 735901), Away_team), 2)]"
  unfolding teams_rest_example
  by (simp add: agged_def group_keys_def group_values_def mean_def)

lemma by_game_example:
  "by_game (teams_rest [ex_g1, ex_g2]) =
     \<lparr>bg_columns = [Away_team], bg_rows = [((2, 735901), \<lparr>away_rest = Some 2, home_rest = None\<rparr>)]\<rparr>"
  by (simp add: by_game_def agged_example)

lemma games_rest_example:
  "games_rest [ex_g1, ex_g2] =
    \<lparr>gr_columns = [Away_team], gr_rows = [(ex_g2, \<lparr>away_rest = Some 2, home_rest = None\<rparr>)]\<rparr>"
  unfolding games_rest_def by_game_example
  by (simp add: concat_columns_def notna_row_def ex_g1_def ex_g2_def toordinal_simps)


subsection \<open>The four-game example, step by step\<close>

lemma toordinal_simps2: "toordinal 2015 11 1 = 735903" "toordinal 2015 11 3 = 735905"
  by (simp_all add: toordinal_def days_before_year_def days_before_month_def days_in_month_def is_leap_def upto.simps)

lemma teams_example4:
  "teams [ex_g1, ex_g2, ex_g3, ex_g4] =
     [\<lparr>a_game_id = 1, a_date = Some 735898, home_away = Away_team, team = Some ''Cleveland Cavaliers''\<rparr>,
      \<lparr>a_game_id = 1, a_date = Some 735898, home_away = Home_team, team = Some ''Chicago Bulls''\<rparr>,
      \<lparr>a_game_id = 2, a_date = Some 735901, home_away = Away_team, team = Some ''Chicago Bulls''\<rparr>,
      \<lparr>a_game_id = 2, a_date = Some 735901, home_away = Home_team, team = Some ''Detroit Pistons''\<rparr>,
      \<lparr>a_game_id = 3, a_date = Some 735903, home_away = Away_team, team = Some ''Cleveland Cavaliers''\<rparr>,
      \<lparr>a_game_id = 3, a_date = Some 735903, home_away = Home_team, team = Some ''Chicago Bulls''\<rparr>,
      \<lparr>a_game_id = 4, a_date = Some 735905, home_away = Away_team, team = Some ''Detroit Pistons''\<rparr>,
      \<lparr>a_game_id = 4, a_date = Some 735905, home_away = Home_team, team = Some ''Cleveland Cavaliers''\<rparr>]"
  by (simp add: teams_def sort_values_def melt_def away_appearance_def home_appearance_def
      ex_g1_def ex_g2_def ex_g3_def ex_g4_def toordinal_simps toordinal_simps2 date_key_def less_eq_prod_def)

lemma teams_rest_example4:
  "teams_rest [ex_g1, ex_g2, ex_g3, ex_g4] =
     [(\<lparr>a_game_id = 1, a_date = Some 735898, home_away = Away_team, team = Some ''Cleveland Cavaliers''\<rparr>, None),
      (\<lparr>a_game_id = 1, a_date = Some 735898, home_away = Home_team, team = Some ''Chicago Bulls''\<rparr>, None),
      (\<lparr>a_game_id = 2, a_date = Some 735901, home_away = Away_team, team = Some ''Chicago Bulls''\<rparr>, Some 2),
      (\<lparr>a_game_id = 2, a_date = Some 735901, home_away = Home_team, team = Some ''Detroit Pistons''\<rparr>, None),
      (\<lparr>a_game_id = 3, a_date = Some 735903, home_away = Away_team, team = Some ''Cleveland Cavaliers''\<rparr>, Some 4),
      (\<lparr>a_game_id = 3, a_date = Some 735903, home_away = Home_team, team = Some ''Chicago Bulls''\<rparr>, Some 1),
      (\<lparr>a_game_id = 4, a_date = Some 735905, home_away = Away_team, team = Some ''Detroit Pistons''\<rparr>, Some 3),
      (\<lparr>a_game_id = 4, a_date = Some 735905, home_away = Home_team, team = Some ''Cleveland Cavaliers''\<rparr>, Some 1)]"
  unfolding teams_rest_def teams_example4 rest_def
  by (simp add: minus_one_def timedelta_days_def)

lemma agged_example4:
  "agged (teams_rest [ex_g1, ex_g2, ex_g3, ex_g4]) =
     [(((2, 735901), Away_team), 2),
      (((3, 735903), Away_team), 4), (((3, 735903), Home_team), 1),
      (((4, 735905), Away_team), 3), (((4, 735905), Home_team), 1)]"
  unfolding teams_rest_example4
  by (simp add: agged_def group_keys_def group_values_def mean_def)

lemma by_game_example4:
  "by_game (teams_rest [ex_g1, ex_g2, ex_g3, ex_g4]) =
     \<lparr>bg_columns = [Away_team, Home_team],
      bg_rows = [((2, 735901), \<lparr>away_rest = Some 2, home_rest = None\<rparr>),
                 ((3, 735903), \<lparr>away_rest = Some 4, home_rest = Some 1\<rparr>),
                 ((4, 735905), \<lparr>away_rest = Some 3, home_rest = Some 1\<rparr>)]\<rparr>"
  unfolding by_game_def agged_example4
  by (simp add: less_eq_prod_def)



subsection \<open>Malformed rows\<close>

lemma map_fst_concat_columns: "map fst (concat_columns gs bg) = gs"
  by (simp add: concat_columns_def comp_def)

lemma gr_rows_subset:
  "row \<in> set (gr_rows (games_rest gs)) \<Longrightarrow> fst row \<in> set gs"
proof -
  assume "row \<in> set (gr_rows (games_rest gs))"
  then have "row \<in> set (concat_columns gs (by_game (teams_rest gs)))"
    by (simp add: games_rest_def Let_def)
  then have "fst row \<in> set (map fst (concat_columns gs (by_game (teams_rest gs))))"
    by (metis imageI set_map)
  then show ?thesis by (simp add: map_fst_concat_columns)
qed

lemma gr_rows_notna:
  "row \<in> set (gr_rows (games_rest gs)) \<Longrightarrow> notna_row (gr_columns (games_rest gs)) row"
  by (simp add: games_rest_def Let_def)

lemma bg_key_of_game:
  assumes "k \<in> fst ` set (bg_rows (by_game (teams_rest gs)))"
  shows "fst k \<in> game_id ` set gs"
proof -
  from assms obtain c where "group_values (teams_rest gs) (k, c) \<noteq> []"
    by (auto simp: bg_keys_iff)
  then obtain a r where "(a, r) \<in> set (teams_rest gs)" and id: "a_game_id a = fst k"
    by (auto simp: group_values_empty_iff)
  then have "a \<in> set (map fst (teams_rest gs))"
    by (metis fst_conv imageI set_map)
  then have "a \<in> set (teams gs)"
    by (simp add: map_fst_teams_rest)
  then obtain g where "g \<in> set gs" "a_game_id a = game_id g"
    using appearance_of_game by blast
  with id show ?thesis
    by (metis image_eqI)
qed

lemma dropna_append_dropped:
  assumes "\<forall>r \<in> set junk. count_notna r < 4"
  shows "dropna_thresh 4 (read_csv (raw @ junk)) = dropna_thresh 4 (read_csv raw)"
proof -
  have "\<forall>x \<in> set (enumerate (length raw) junk). snd x \<in> set junk"
    by (auto simp: enumerate_eq_zip dest: set_zip_rightD)
  with assms have "\<forall>x \<in> set (enumerate (length raw) junk). \<not> 4 \<le> count_notna (snd x)"
    by (metis not_le)
  then have "filter (\<lambda>(i, r). 4 \<le> count_notna r) (enumerate (length raw) junk) = []"
    by (simp add: filter_empty_conv case_prod_unfold)
  then show ?thesis
    by (simp add: dropna_thresh_def read_csv_def enumerate_append_eq)
qed

lemma games_append_dropped:
  "\<forall>r \<in> set junk. count_notna r < 4 \<Longrightarrow> games strptime (raw @ junk) = games strptime raw"
  by (simp add: games_def dropna_append_dropped)

text \<open>
  C7, as stated: the file of the two games and the same file with the separator line
  \<^verbatim>\<open>October,,,,,,,,\<close> after them give the same \<open>games\<close>, the first with no dropped row
  and the second with one. Nothing in the output tells the two files apart, so the
  number of dropped rows is neither recorded nor recoverable from it.
\<close>

theorem dropped_rows_count_counterexample:
  "games ex_strptime [ex_raw1, ex_raw2] = games ex_strptime [ex_raw1, ex_raw2, ex_october]
   \<and> map count_notna [ex_raw1, ex_raw2] = [7, 7]
   \<and> map count_notna [ex_raw1, ex_raw2, ex_october] = [7, 7, 1]"
proof -
  have "count_notna ex_october < 4"
    by (simp add: count_notna_def notna_def ex_october_def)
  then have "games ex_strptime ([ex_raw1, ex_raw2] @ [ex_october]) = games ex_strptime [ex_raw1, ex_raw2]"
    by (intro games_append_dropped) simp
  moreover have "map count_notna [ex_raw1, ex_raw2] = [7, 7]"
    and "map count_notna [ex_raw1, ex_raw2, ex_october] = [7, 7, 1]"
    by (simp_all add: count_notna_def notna_def ex_october_def ex_raw1_def ex_raw2_def)
  ultimately show ?thesis by simp
qed

text \<open>
  C7, amended. A row with fewer than four non-missing fields is dropped by
  \<open>dropna(thresh=4)\<close> before the dates are parsed: the ids of \<open>games\<close> are the positions
  of the rows with at least four non-missing fields, so the position of a dropped row is
  the id of no row of \<open>games\<close>, \<open>teams\<close>, \<open>by_game\<close> or \<open>games_rest\<close>; and the chain
  returns a table whenever the dates of the kept rows parse, whatever the dropped rows
  hold. The removal is silent: rows with fewer than four non-missing fields at the end of
  the file leave \<open>games\<close>, and so every table made from it, unchanged.
\<close>

theorem malformed_rows_dropped_silently:
  "(games strptime raw = Inr gs \<longrightarrow>
      map game_id gs = filter (\<lambda>i. 4 \<le> count_notna (raw ! i)) [0..<length raw]
      \<and> (\<forall>i < length raw. count_notna (raw ! i) < 4 \<longrightarrow>
           i \<notin> game_id ` set gs
           \<and> i \<notin> a_game_id ` set (teams gs)
           \<and> i \<notin> (fst \<circ> fst) ` set (bg_rows (by_game (teams_rest gs)))
           \<and> i \<notin> (game_id \<circ> fst) ` set (gr_rows (games_rest gs))))
   \<and> ((\<forall>r \<in> set raw. 4 \<le> count_notna r \<longrightarrow> (\<forall>s. Date r = Some s \<longrightarrow> strptime s \<noteq> None))
        \<longrightarrow> (\<exists>gs. games strptime raw = Inr gs))
   \<and> ((\<forall>r \<in> set junk. count_notna r < 4)
        \<longrightarrow> games strptime (raw @ junk) = games strptime raw)"
proof (intro conjI impI)
  assume g: "games strptime raw = Inr gs"
  show ids: "map game_id gs = filter (\<lambda>i. 4 \<le> count_notna (raw ! i)) [0..<length raw]"
    using g by (rule games_Inr(2))
  show "\<forall>i < length raw. count_notna (raw ! i) < 4 \<longrightarrow>
           i \<notin> game_id ` set gs
           \<and> i \<notin> a_game_id ` set (teams gs)
           \<and> i \<notin> (fst \<circ> fst) ` set (bg_rows (by_game (teams_rest gs)))
           \<and> i \<notin> (game_id \<circ> fst) ` set (gr_rows (games_rest gs))"
  proof (intro allI impI)
    fix i
    assume "i < length raw" and few: "count_notna (raw ! i) < 4"
    have "set (map game_id gs) = {i. i < length raw \<and> 4 \<le> count_notna (raw ! i)}"
      unfolding ids by auto
    with few have no: "i \<notin> game_id ` set gs" by auto
    have t: "a_game_id ` set (teams gs) = game_id ` set gs"
      by (auto simp: set_teams away_appearance_def home_appearance_def image_Un image_image)
    have b: "(fst \<circ> fst) ` set (bg_rows (by_game (teams_rest gs))) \<subseteq> game_id ` set gs"
      using bg_key_of_game [of _ gs] by force
    have r: "(game_id \<circ> fst) ` set (gr_rows (games_rest gs)) \<subseteq> game_id ` set gs"
      using gr_rows_subset [of _ gs] by force
    from no t b r show "i \<notin> game_id ` set gs
           \<and> i \<notin> a_game_id ` set (teams gs)
           \<and> i \<notin> (fst \<circ> fst) ` set (bg_rows (by_game (teams_rest gs)))
           \<and> i \<notin> (game_id \<circ> fst) ` set (gr_rows (games_rest gs))"
      by blast
  qed
next
  assume "\<forall>r \<in> set raw. 4 \<le> count_notna r \<longrightarrow> (\<forall>s. Date r = Some s \<longrightarrow> strptime s \<noteq> None)"
  then show "\<exists>gs. games strptime raw = Inr gs"
    by (rule games_total)
next
  assume "\<forall>r \<in> set junk. count_notna r < 4"
  then show "games strptime (raw @ junk) = games strptime raw"
    by (rule games_append_dropped)
qed

theorem malformed_rows_dropped_silently_witness:
  "games ex_strptime [ex_october, ex_raw1, ex_raw2] = Inr [ex_g1, ex_g2]
   \<and> count_notna ex_october < 4
   \<and> ex_strptime ''October'' = None
   \<and> map count_notna [ex_october, ex_raw1, ex_raw2] = [1, 7, 7]
   \<and> map (map_option ex_strptime \<circ> Date) [ex_raw1, ex_raw2]
       = [Some (Some 735898), Some (Some 735901)]
   \<and> map game_id [ex_g1, ex_g2] = [1, 2]
   \<and> 0 \<notin> game_id ` set [ex_g1, ex_g2]
   \<and> 0 \<notin> a_game_id ` set (teams [ex_g1, ex_g2])
   \<and> 0 \<notin> (fst \<circ> fst) ` set (bg_rows (by_game (teams_rest [ex_g1, ex_g2])))
   \<and> 0 \<notin> (game_id \<circ> fst) ` set (gr_rows (games_rest [ex_g1, ex_g2]))
   \<and> games ex_strptime ([ex_october, ex_raw1, ex_raw2] @ [ex_october]) = Inr [ex_g1, ex_g2]"
proof -
  let ?raw = "[ex_october, ex_raw1, ex_raw2]"
  have few: "count_notna ex_october < 4"
    by (simp add: count_notna_def notna_def ex_october_def)
  have oct: "ex_strptime ''October'' = None"
    by (simp add: ex_strptime_def)
  have parses: "\<forall>r \<in> set ?raw.
         4 \<le> count_notna r \<longrightarrow> (\<forall>s. Date r = Some s \<longrightarrow> ex_strptime s \<noteq> None)"
    by (simp add: count_notna_def notna_def ex_october_def ex_raw1_def ex_raw2_def ex_strptime_def)
  have ids: "map game_id [ex_g1, ex_g2] = [1, 2]"
    by (simp add: ex_g1_def ex_g2_def)
  have cnts: "map count_notna ?raw = [1, 7, 7]"
    by (simp add: count_notna_def notna_def ex_october_def ex_raw1_def ex_raw2_def)
  have prs: "map (map_option ex_strptime \<circ> Date) [ex_raw1, ex_raw2]
       = [Some (Some 735898), Some (Some 735901)]"
    by (simp add: ex_raw1_def ex_raw2_def ex_strptime_def toordinal_simps)
  note inst = malformed_rows_dropped_silently [of ex_strptime ?raw "[ex_g1, ex_g2]" "[ex_october]"]
  from inst parses have total: "\<exists>gs. games ex_strptime ?raw = Inr gs"
    by blast
  from few have junk: "\<forall>r \<in> set [ex_october]. count_notna r < 4"
    by simp
  from inst junk have "games ex_strptime (?raw @ [ex_october]) = games ex_strptime ?raw"
    by blast
  with games_example have app: "games ex_strptime (?raw @ [ex_october]) = Inr [ex_g1, ex_g2]"
    by simp
  from inst games_example few
  have "0 \<notin> game_id ` set [ex_g1, ex_g2]
   \<and> 0 \<notin> a_game_id ` set (teams [ex_g1, ex_g2])
   \<and> 0 \<notin> (fst \<circ> fst) ` set (bg_rows (by_game (teams_rest [ex_g1, ex_g2])))
   \<and> 0 \<notin> (game_id \<circ> fst) ` set (gr_rows (games_rest [ex_g1, ex_g2]))"
    by simp
  with games_example few oct cnts prs ids app show ?thesis by blast
qed

subsection \<open>The wide tables\<close>

lemma distinct_gr_rows:
  assumes "distinct (map game_id gs)"
  shows "distinct (map (game_id \<circ> fst) (gr_rows (games_rest gs)))"
proof -
  have "distinct (map (game_id \<circ> fst) (concat_columns gs (by_game (teams_rest gs))))"
    using assms by (simp add: concat_columns_def comp_def)
  then show ?thesis
    by (simp add: games_rest_def Let_def distinct_map_filter)
qed

text \<open>
  C8. The wide table has one row for each game key that has a defined rest value in the
  appearances and no second row for any key, whatever the appearances are; the rows are
  in key order. After the join each game of \<open>games\<close> has at most one row too.
\<close>

theorem by_game_one_row_per_key:
  "distinct (map fst (bg_rows (by_game df)))
   \<and> sorted (map fst (bg_rows (by_game df)))
   \<and> (\<forall>k. k \<in> fst ` set (bg_rows (by_game df)) \<longleftrightarrow>
          (\<exists>(a, r) \<in> set df. r \<noteq> None \<and> a_date a = Some (snd k) \<and> a_game_id a = fst k))
   \<and> (games strptime raw = Inr gs \<longrightarrow>
        distinct (map fst (bg_rows (by_game (teams_rest gs))))
        \<and> distinct (map (game_id \<circ> fst) (gr_rows (games_rest gs))))"
proof -
  have d: "distinct (map fst (bg_rows (by_game df)))" for df
    by (simp add: map_fst_bg_rows)
  have s: "sorted (map fst (bg_rows (by_game df)))"
    by (simp add: map_fst_bg_rows)
  have k: "k \<in> fst ` set (bg_rows (by_game df)) \<longleftrightarrow>
          (\<exists>(a, r) \<in> set df. r \<noteq> None \<and> a_date a = Some (snd k) \<and> a_game_id a = fst k)" for k
    unfolding bg_keys_iff group_values_empty_iff by auto
  have g: "games strptime raw = Inr gs \<longrightarrow>
        distinct (map (game_id \<circ> fst) (gr_rows (games_rest gs)))"
    using distinct_game_id [of strptime raw gs] distinct_gr_rows [of gs] by blast
  from d [of df] d [of "teams_rest gs"] s k g show ?thesis by blast
qed

theorem by_game_one_row_per_key_witness:
  "games ex_strptime [ex_october, ex_raw1, ex_raw2] = Inr [ex_g1, ex_g2]
   \<and> distinct (map fst (bg_rows (by_game (teams_rest [ex_g1, ex_g2]))))
   \<and> distinct (map (game_id \<circ> fst) (gr_rows (games_rest [ex_g1, ex_g2])))
   \<and> map fst (bg_rows (by_game (teams_rest [ex_g1, ex_g2]))) = [(2, 735901)]"
  using by_game_one_row_per_key
          [of "teams_rest [ex_g1, ex_g2]" ex_strptime "[ex_october, ex_raw1, ex_raw2]" "[ex_g1, ex_g2]"]
        games_example
  by (simp add: by_game_example)

text \<open>
  C6 on the two-game example, from the file to the final table. The Pistons' only
  appearance is the home side of game 2, so that game's home rest is missing; no game has
  a defined home rest, so the wide table has the \<open>away_rest\<close> column only, and the final
  table keeps game 2.
\<close>

theorem undefined_home_rest_kept:
  "games ex_strptime [ex_october, ex_raw1, ex_raw2] = Inr [ex_g1, ex_g2]
   \<and> teams_rest [ex_g1, ex_g2] ! 3 = (home_appearance ex_g2, None)
   \<and> by_game (teams_rest [ex_g1, ex_g2])
       = \<lparr>bg_columns = [Away_team],
          bg_rows = [((2, 735901), \<lparr>away_rest = Some 2, home_rest = None\<rparr>)]\<rparr>
   \<and> games_rest [ex_g1, ex_g2]
       = \<lparr>gr_columns = [Away_team],
          gr_rows = [(ex_g2, \<lparr>away_rest = Some 2, home_rest = None\<rparr>)]\<rparr>"
proof -
  have "teams_rest [ex_g1, ex_g2] ! 3 = (home_appearance ex_g2, None)"
    unfolding teams_rest_example
    by (simp add: home_appearance_def ex_g2_def toordinal_simps)
  with games_example by_game_example games_rest_example show ?thesis
    by blast
qed


subsection \<open>Rest days\<close>

lemma groupby_diff_partition:
  "map snd (filter (\<lambda>(a, r). team a = Some t) (zip df (groupby_diff prev df))) =
     (case prev t of
        None \<Rightarrow> map minus_one (diff_days (map a_date (filter (\<lambda>a. team a = Some t) df)))
      | Some p \<Rightarrow>
          map minus_one (map2 timedelta_days (map a_date (filter (\<lambda>a. team a = Some t) df))
                                             (p # map a_date (filter (\<lambda>a. team a = Some t) df))))"
proof (induction df arbitrary: prev)
  case Nil
  then show ?case by (simp split: option.splits)
next
  case (Cons a df)
  let ?ds = "map a_date (filter (\<lambda>a. team a = Some t) df)"
  show ?case
  proof (cases "team a")
    case None
    then have step: "groupby_diff prev (a # df) = None # groupby_diff prev df"
      by simp
    have flt: "filter (\<lambda>a. team a = Some t) (a # df) = filter (\<lambda>a. team a = Some t) df"
      using None by simp
    show ?thesis
      unfolding step flt using None by (simp add: Cons.IH)
  next
    case (Some u)
    show ?thesis
    proof (cases "u = t")
      case True
      have ih: "map snd (filter (\<lambda>(a, r). team a = Some t)
                          (zip df (groupby_diff (prev(t \<mapsto> a_date a)) df)))
                = map minus_one (map2 timedelta_days ?ds (a_date a # ?ds))"
        by (simp add: Cons.IH)
      have step: "groupby_diff prev (a # df)
                  = (case prev t of None \<Rightarrow> None
                     | Some p \<Rightarrow> minus_one (timedelta_days (a_date a) p))
                    # groupby_diff (prev(t \<mapsto> a_date a)) df"
        using Some True by simp
      have flt: "filter (\<lambda>a. team a = Some t) (a # df) = a # filter (\<lambda>a. team a = Some t) df"
        using Some True by simp
      show ?thesis
        unfolding step flt using Some True
        by (cases "prev t") (simp_all add: ih minus_one_def)
    next
      case False
      have ih: "map snd (filter (\<lambda>(a, r). team a = Some t)
                          (zip df (groupby_diff (prev(u \<mapsto> a_date a)) df)))
                = (case prev t of
                     None \<Rightarrow> map minus_one (diff_days ?ds)
                   | Some p \<Rightarrow> map minus_one (map2 timedelta_days ?ds (p # ?ds)))"
        using False by (simp add: Cons.IH)
      have step: "groupby_diff prev (a # df)
                  = (case prev u of None \<Rightarrow> None
                     | Some p \<Rightarrow> minus_one (timedelta_days (a_date a) p))
                    # groupby_diff (prev(u \<mapsto> a_date a)) df"
        using Some by simp
      have flt: "filter (\<lambda>a. team a = Some t) (a # df) = filter (\<lambda>a. team a = Some t) df"
        using Some False by simp
      show ?thesis
        unfolding step flt using Some False by (simp add: ih)
    qed
  qed
qed

lemma rest_partition:
  "map snd (filter (\<lambda>(a, r). team a = Some t) (zip df (rest df)))
     = map minus_one (diff_days (map a_date (filter (\<lambda>a. team a = Some t) df)))"
  by (simp add: rest_def groupby_diff_partition)

lemma bulls_rest_eq:
  "bulls_rest df = map snd (filter (\<lambda>(a, r). team a = Some ''Chicago Bulls'') (zip df (rest df)))"
  by (simp add: bulls_rest_def bulls_def rest_partition)

lemma minus_one_timedelta: "minus_one (timedelta_days (Some c) (Some q)) = Some (c - q - 1)"
  by (simp add: minus_one_def timedelta_days_def)

lemma length_diff_days: "length (diff_days ds) = length ds"
  by (cases ds) simp_all

lemma diff_days_later:
  assumes "0 < i" and "i < length ds"
  shows "diff_days ds ! i = timedelta_days (ds ! i) (ds ! (i - 1))"
proof -
  from assms obtain d ds' where ds: "ds = d # ds'"
    by (cases ds) auto
  from assms obtain j where i: "i = Suc j"
    by (cases i) auto
  from assms show ?thesis
    unfolding ds i by simp
qed

lemma bulls_example:
  "map a_date (bulls (teams [ex_g1, ex_g2])) = [Some 735898, Some 735901]"
  "bulls_rest (teams [ex_g1, ex_g2]) = [None, Some 2]"
  unfolding bulls_rest_def bulls_def teams_example
  by (simp_all add: minus_one_def timedelta_days_def)

text \<open>
  C1. For every team, the rest values of the team's rows, in frame order, are: a missing
  value for the first row, and for each later row \<open>i\<close> the days from the date of row
  \<open>i - 1\<close> to the date of row \<open>i\<close>, minus one (missing when one of the two dates is);
  a missing value is \<open>None\<close>, not \<open>Some 0\<close>. The Bulls of the example, at home on
  2015-10-27 and away on 2015-10-30, get a missing value and \<open>2\<close>; the single-team
  computation of the notebook, \<open>bulls_rest\<close>, gives the same column.
\<close>

theorem rest_days_per_partition:
  "(let p = filter (\<lambda>a. team a = Some t) df;
        rs = map snd (filter (\<lambda>(a, r). team a = Some t) (zip df (rest df)))
    in length rs = length p
       \<and> (p \<noteq> [] \<longrightarrow> rs ! 0 = None)
       \<and> (\<forall>i. 0 < i \<and> i < length p \<longrightarrow>
              rs ! i = minus_one (timedelta_days (a_date (p ! i)) (a_date (p ! (i - 1)))))
       \<and> (\<forall>i c q. 0 < i \<and> i < length p \<and> a_date (p ! i) = Some c \<and> a_date (p ! (i - 1)) = Some q
              \<longrightarrow> rs ! i = Some (c - q - 1)))
   \<and> bulls_rest df = map snd (filter (\<lambda>(a, r). team a = Some ''Chicago Bulls'') (zip df (rest df)))
   \<and> map a_date (bulls (teams [ex_g1, ex_g2]))
       = [Some (toordinal 2015 10 27), Some (toordinal 2015 10 30)]
   \<and> bulls_rest (teams [ex_g1, ex_g2]) = [None, Some 2]"
proof -
  let ?p = "filter (\<lambda>a. team a = Some t) df"
  let ?rs = "map snd (filter (\<lambda>(a, r). team a = Some t) (zip df (rest df)))"
  let ?ds = "map a_date ?p"
  have rs: "?rs = map minus_one (diff_days ?ds)"
    by (rule rest_partition)
  have len: "length ?rs = length ?p"
    unfolding rs by (simp add: length_diff_days)
  have first: "?p \<noteq> [] \<longrightarrow> ?rs ! 0 = None"
    unfolding rs by (cases ?p) (simp_all add: minus_one_def)
  have later: "?rs ! i = minus_one (timedelta_days (a_date (?p ! i)) (a_date (?p ! (i - 1))))"
    if "0 < i" "i < length ?p" for i
  proof -
    have "diff_days ?ds ! i = timedelta_days (?ds ! i) (?ds ! (i - 1))"
      using that by (intro diff_days_later) simp_all
    then show ?thesis
      using that unfolding rs by (simp add: length_diff_days)
  qed
  then have later': "\<forall>i c q. 0 < i \<and> i < length ?p \<and> a_date (?p ! i) = Some c \<and> a_date (?p ! (i - 1)) = Some q
              \<longrightarrow> ?rs ! i = Some (c - q - 1)"
    by (simp add: minus_one_timedelta)
  from len first later later' bulls_rest_eq [of df] bulls_example show ?thesis
    unfolding Let_def toordinal_simps by blast
qed

theorem rest_days_per_partition_witness:
  "filter (\<lambda>a. team a = Some ''Chicago Bulls'') (teams [ex_g1, ex_g2]) \<noteq> []
   \<and> (0::nat) < 1 \<and> 1 < length (filter (\<lambda>a. team a = Some ''Chicago Bulls'') (teams [ex_g1, ex_g2]))
   \<and> a_date (filter (\<lambda>a. team a = Some ''Chicago Bulls'') (teams [ex_g1, ex_g2]) ! 1) = Some 735901
   \<and> a_date (filter (\<lambda>a. team a = Some ''Chicago Bulls'') (teams [ex_g1, ex_g2]) ! (1 - 1)) = Some 735898
   \<and> map snd (filter (\<lambda>(a, r). team a = Some ''Chicago Bulls'')
                       (zip (teams [ex_g1, ex_g2]) (rest (teams [ex_g1, ex_g2])))) ! 0 = None
   \<and> map snd (filter (\<lambda>(a, r). team a = Some ''Chicago Bulls'')
                       (zip (teams [ex_g1, ex_g2]) (rest (teams [ex_g1, ex_g2])))) ! 1
       = Some (735901 - 735898 - 1)"
proof -
  let ?p = "filter (\<lambda>a. team a = Some ''Chicago Bulls'') (teams [ex_g1, ex_g2])"
  let ?rs = "map snd (filter (\<lambda>(a, r). team a = Some ''Chicago Bulls'')
                       (zip (teams [ex_g1, ex_g2]) (rest (teams [ex_g1, ex_g2]))))"
  have p: "?p = [\<lparr>a_game_id = 1, a_date = Some 735898, home_away = Home_team, team = Some ''Chicago Bulls''\<rparr>,
                 \<lparr>a_game_id = 2, a_date = Some 735901, home_away = Away_team, team = Some ''Chicago Bulls''\<rparr>]"
    unfolding teams_example by simp
  have h: "?p \<noteq> []" "(0::nat) < 1" "1 < length ?p"
    "a_date (?p ! 1) = Some 735901" "a_date (?p ! (1 - 1)) = Some 735898"
    unfolding p by simp_all
  note inst = rest_days_per_partition [of "''Chicago Bulls''" "teams [ex_g1, ex_g2]", unfolded Let_def]
  from inst have first: "?p \<noteq> [] \<longrightarrow> ?rs ! 0 = None"
    by (elim conjE)
  from inst have later: "\<forall>i c q. 0 < i \<and> i < length ?p \<and> a_date (?p ! i) = Some c
      \<and> a_date (?p ! (i - 1)) = Some q \<longrightarrow> ?rs ! i = Some (c - q - 1)"
    by (elim conjE)
  from first h(1) have r0: "?rs ! 0 = None" ..
  from later [rule_format, of 1 735901 735898] h have r1: "?rs ! 1 = Some (735901 - 735898 - 1)"
    by (intro later [rule_format]) (intro conjI)
  from h r0 r1 show ?thesis
    by (intro conjI)
qed

lemma timedelta_defined:
  "\<forall>d \<in> set ds. d \<noteq> None \<Longrightarrow> q \<noteq> None \<Longrightarrow>
   \<forall>r \<in> set (map2 timedelta_days ds (q # ds)). r \<noteq> None"
proof (induction ds arbitrary: q)
  case Nil
  then show ?case by simp
next
  case (Cons d ds)
  from Cons.prems(1) have d: "d \<noteq> None" and ds: "\<forall>x \<in> set ds. x \<noteq> None"
    by simp_all
  from d Cons.prems(2) have hd: "timedelta_days d q \<noteq> None"
    by (auto simp: timedelta_days_def)
  have tl: "\<forall>r \<in> set (map2 timedelta_days ds (d # ds)). r \<noteq> None"
    using ds d by (rule Cons.IH)
  have "map2 timedelta_days (d # ds) (q # d # ds)
        = timedelta_days d q # map2 timedelta_days ds (d # ds)"
    by simp
  with hd tl show ?case
    by (metis set_ConsD)
qed

lemma games_example_nodate:
  "games ex_strptime [ex_october, ex_raw1, ex_raw_nodate] = Inr [ex_g1, ex_nodate]"
  by (simp add: games_def read_csv_def dropna_thresh_def enumerate_eq_zip upt_rec count_notna_def notna_def
      ex_october_def ex_raw1_def ex_raw_nodate_def ex_strptime_def to_datetime_def ex_g1_def ex_nodate_def
      date_key_def less_eq_prod_def)

lemma teams_example_nodate:
  "teams [ex_g1, ex_nodate] =
     [\<lparr>a_game_id = 1, a_date = Some 735898, home_away = Away_team, team = Some ''Cleveland Cavaliers''\<rparr>,
      \<lparr>a_game_id = 1, a_date = Some 735898, home_away = Home_team, team = Some ''Chicago Bulls''\<rparr>,
      \<lparr>a_game_id = 2, a_date = None, home_away = Away_team, team = Some ''Chicago Bulls''\<rparr>,
      \<lparr>a_game_id = 2, a_date = None, home_away = Home_team, team = Some ''Detroit Pistons''\<rparr>]"
  by (simp add: teams_def sort_values_def melt_def away_appearance_def home_appearance_def
      ex_g1_def ex_nodate_def toordinal_simps date_key_def less_eq_prod_def)

text \<open>
  C4, as stated, on a file where the Bulls' second game has no date: the Bulls have two
  appearances and no defined rest value.
\<close>

theorem rest_count_counterexample:
  "games ex_strptime [ex_october, ex_raw1, ex_raw_nodate] = Inr [ex_g1, ex_nodate]
   \<and> map a_date (bulls (teams [ex_g1, ex_nodate])) = [Some 735898, None]
   \<and> bulls_rest (teams [ex_g1, ex_nodate]) = [None, None]
   \<and> rest (teams [ex_g1, ex_nodate]) = [None, None, None, None]"
proof -
  have "map a_date (bulls (teams [ex_g1, ex_nodate])) = [Some 735898, None]"
    and "bulls_rest (teams [ex_g1, ex_nodate]) = [None, None]"
    and "rest (teams [ex_g1, ex_nodate]) = [None, None, None, None]"
    unfolding bulls_rest_def bulls_def rest_def teams_example_nodate
    by (simp_all add: minus_one_def timedelta_days_def)
  with games_example_nodate show ?thesis by blast
qed

text \<open>
  C4, amended. For every team all of whose appearances have a date: with \<open>N \<ge> 1\<close>
  appearances the team gets exactly \<open>N - 1\<close> defined rest values and exactly one missing
  value, the one of its first appearance. A team with a single appearance gets the one
  missing value, with or without a date. The computation has no error case: it returns
  one value for each row of the frame.
\<close>

theorem rest_values_count:
  "(let p = filter (\<lambda>a. team a = Some t) df;
        rs = map snd (filter (\<lambda>(a, r). team a = Some t) (zip df (rest df)))
    in (p \<noteq> [] \<and> (\<forall>a \<in> set p. a_date a \<noteq> None) \<longrightarrow>
          length (filter (\<lambda>r. r \<noteq> None) rs) = length p - 1
          \<and> length (filter (\<lambda>r. r = None) rs) = 1
          \<and> rs ! 0 = None
          \<and> (\<forall>i. 0 < i \<and> i < length p \<longrightarrow> rs ! i \<noteq> None))
       \<and> (length p = 1 \<longrightarrow> rs = [None]))
   \<and> length (rest df) = length df"
proof -
  let ?p = "filter (\<lambda>a. team a = Some t) df"
  let ?rs = "map snd (filter (\<lambda>(a, r). team a = Some t) (zip df (rest df)))"
  have rs: "?rs = map minus_one (diff_days (map a_date ?p))"
    by (rule rest_partition)
  have one: "?rs = [None]" if "length ?p = 1"
  proof -
    from that obtain a where "?p = [a]"
      by (cases ?p) auto
    then show ?thesis
      unfolding rs by (simp add: minus_one_def)
  qed
  have many: "length (filter (\<lambda>r. r \<noteq> None) ?rs) = length ?p - 1
          \<and> length (filter (\<lambda>r. r = None) ?rs) = 1
          \<and> ?rs ! 0 = None
          \<and> (\<forall>i. 0 < i \<and> i < length ?p \<longrightarrow> ?rs ! i \<noteq> None)"
    if ne: "?p \<noteq> []" and dates: "\<forall>a \<in> set ?p. a_date a \<noteq> None"
  proof -
    from ne obtain a p' where p: "?p = a # p'"
      by (cases ?p) auto
    let ?tl = "map minus_one (map2 timedelta_days (map a_date p') (a_date a # map a_date p'))"
    have rs': "?rs = None # ?tl"
      unfolding rs p by (simp add: minus_one_def)
    have "\<forall>r \<in> set (map2 timedelta_days (map a_date p') (a_date a # map a_date p')). r \<noteq> None"
      using dates unfolding p by (intro timedelta_defined) simp_all
    then have def: "\<forall>r \<in> set ?tl. r \<noteq> None"
      by (auto simp: minus_one_def)
    then have f1: "filter (\<lambda>r. r \<noteq> None) ?tl = ?tl" and f2: "filter (\<lambda>r. r = None) ?tl = []"
      by (simp_all add: filter_empty_conv)
    have len: "length ?tl = length p'"
      by simp
    have "\<forall>i. 0 < i \<and> i < length ?p \<longrightarrow> ?rs ! i \<noteq> None"
    proof (intro allI impI)
      fix i assume i: "0 < i \<and> i < length ?p"
      then obtain j where j: "i = Suc j" by (cases i) auto
      with i have "j < length ?tl" unfolding p by simp
      then have "?tl ! j \<in> set ?tl" by (rule nth_mem)
      moreover have "?rs ! i = ?tl ! j"
        unfolding rs' j by simp
      ultimately show "?rs ! i \<noteq> None"
        using def by metis
    qed
    with f1 f2 len show ?thesis
      unfolding rs' p by simp
  qed
  from one many length_rest [of df] show ?thesis
    unfolding Let_def by blast
qed

theorem rest_values_count_witness:
  "filter (\<lambda>a. team a = Some ''Chicago Bulls'') (teams [ex_g1, ex_g2, ex_g3, ex_g4]) \<noteq> []
   \<and> map a_date (filter (\<lambda>a. team a = Some ''Chicago Bulls'') (teams [ex_g1, ex_g2, ex_g3, ex_g4]))
       = [Some 735898, Some 735901, Some 735903]
   \<and> length (filter (\<lambda>a. team a = Some ''Chicago Bulls'') (teams [ex_g1, ex_g2, ex_g3, ex_g4])) = 3
   \<and> length (filter (\<lambda>r. r \<noteq> None)
        (map snd (filter (\<lambda>(a, r). team a = Some ''Chicago Bulls'')
                         (zip (teams [ex_g1, ex_g2, ex_g3, ex_g4])
                              (rest (teams [ex_g1, ex_g2, ex_g3, ex_g4])))))) = 3 - 1
   \<and> length (filter (\<lambda>r. r = None)
        (map snd (filter (\<lambda>(a, r). team a = Some ''Chicago Bulls'')
                         (zip (teams [ex_g1, ex_g2, ex_g3, ex_g4])
                              (rest (teams [ex_g1, ex_g2, ex_g3, ex_g4])))))) = 1
   \<and> length (filter (\<lambda>a. team a = Some ''Detroit Pistons'') (teams [ex_g1, ex_g2])) = 1
   \<and> map snd (filter (\<lambda>(a, r). team a = Some ''Detroit Pistons'')
                       (zip (teams [ex_g1, ex_g2]) (rest (teams [ex_g1, ex_g2])))) = [None]"
proof -
  let ?q = "filter (\<lambda>a. team a = Some ''Detroit Pistons'') (teams [ex_g1, ex_g2])"
  let ?qs = "map snd (filter (\<lambda>(a, r). team a = Some ''Detroit Pistons'')
                       (zip (teams [ex_g1, ex_g2]) (rest (teams [ex_g1, ex_g2]))))"
  have q: "length ?q = 1"
    unfolding teams_example by simp
  note inst1 = rest_values_count [of "''Detroit Pistons''" "teams [ex_g1, ex_g2]", unfolded Let_def]
  from inst1 have "length ?q = 1 \<longrightarrow> ?qs = [None]"
    by (elim conjE)
  with q have qs: "?qs = [None]" by (rule rev_mp)
  let ?df = "teams [ex_g1, ex_g2, ex_g3, ex_g4]"
  let ?p = "filter (\<lambda>a. team a = Some ''Chicago Bulls'') ?df"
  let ?rs = "map snd (filter (\<lambda>(a, r). team a = Some ''Chicago Bulls'') (zip ?df (rest ?df)))"
  have h: "?p \<noteq> [] \<and> (\<forall>a \<in> set ?p. a_date a \<noteq> None)" and n: "length ?p = 3"
    and dates: "map a_date ?p = [Some 735898, Some 735901, Some 735903]"
    unfolding teams_example4 by simp_all
  note inst = rest_values_count [of "''Chicago Bulls''" ?df, unfolded Let_def]
  from inst have "?p \<noteq> [] \<and> (\<forall>a \<in> set ?p. a_date a \<noteq> None) \<longrightarrow>
          length (filter (\<lambda>r. r \<noteq> None) ?rs) = length ?p - 1
          \<and> length (filter (\<lambda>r. r = None) ?rs) = 1
          \<and> ?rs ! 0 = None
          \<and> (\<forall>i. 0 < i \<and> i < length ?p \<longrightarrow> ?rs ! i \<noteq> None)"
    by (elim conjE)
  with h have "length (filter (\<lambda>r. r \<noteq> None) ?rs) = length ?p - 1"
    and "length (filter (\<lambda>r. r = None) ?rs) = 1"
    by blast+
  with h n q qs dates show ?thesis
    by (metis (no_types, lifting))
qed


subsection \<open>The round trip\<close>

lemma rest_defined_date:
  "(a, Some r) \<in> set (zip df (groupby_diff prev df)) \<Longrightarrow> a_date a \<noteq> None"
proof (induction df arbitrary: prev)
  case Nil
  then show ?case by simp
next
  case (Cons x df)
  show ?case
  proof (cases "team x")
    case None
    with Cons.prems have "(a, Some r) \<in> set (zip df (groupby_diff prev df))"
      by auto
    then show ?thesis by (rule Cons.IH)
  next
    case (Some u)
    let ?v = "case prev u of None \<Rightarrow> None | Some p \<Rightarrow> minus_one (timedelta_days (a_date x) p)"
    from Some Cons.prems
    consider "a = x" "?v = Some r" | "(a, Some r) \<in> set (zip df (groupby_diff (prev(u \<mapsto> a_date x)) df))"
      by auto
    then show ?thesis
    proof cases
      case 1
      then show ?thesis
        by (auto simp: minus_one_def timedelta_days_def split: option.splits)
    next
      case 2
      then show ?thesis by (rule Cons.IH)
    qed
  qed
qed

lemma teams_rest_defined_date:
  "(a, Some r) \<in> set (teams_rest gs) \<Longrightarrow> \<exists>d. a_date a = Some d"
  unfolding teams_rest_def rest_def using rest_defined_date by blast

lemma mset_map_teams:
  "mset (map f (teams gs)) = mset (map (f \<circ> away_appearance) gs) + mset (map (f \<circ> home_appearance) gs)"
proof -
  have "mset (map f (teams gs)) = image_mset f (mset (teams gs))"
    by simp
  then show ?thesis
    unfolding mset_teams by (simp add: image_mset.compositionality)
qed

lemma distinct_teams_key:
  assumes "distinct (map game_id gs)"
  shows "distinct (map (\<lambda>a. (a_game_id a, home_away a)) (teams gs))"
proof -
  let ?k = "\<lambda>a. (a_game_id a, home_away a)"
  have "mset (map ?k (teams gs))
        = mset (map (\<lambda>g. (game_id g, Away_team)) gs @ map (\<lambda>g. (game_id g, Home_team)) gs)"
    unfolding mset_map_teams by (simp add: comp_def away_appearance_def home_appearance_def)
  moreover have "distinct (map (\<lambda>g. (game_id g, Away_team)) gs @ map (\<lambda>g. (game_id g, Home_team)) gs)"
  proof -
    have "distinct (map (\<lambda>i. (i, c)) (map game_id gs))" for c :: role
      using assms by (simp add: distinct_map inj_on_def del: map_map)
    then have "distinct (map (\<lambda>g. (game_id g, c)) gs)" for c :: role
      by (simp add: comp_def)
    then show ?thesis by auto
  qed
  ultimately show ?thesis
    by (metis mset_eq_imp_distinct_iff)
qed

lemma distinct_teams_rest_key:
  assumes "distinct (map game_id gs)"
  shows "distinct (map (\<lambda>x. (a_game_id (fst x), home_away (fst x))) (teams_rest gs))"
proof -
  have "map (\<lambda>x. (a_game_id (fst x), home_away (fst x))) (teams_rest gs)
        = map (\<lambda>a. (a_game_id a, home_away a)) (map fst (teams_rest gs))"
    by (simp add: comp_def)
  then show ?thesis
    using distinct_teams_key [OF assms] by (simp only: map_fst_teams_rest)
qed

lemma group_values_filter:
  "group_values df g =
     map (the \<circ> snd)
         (filter (\<lambda>x. snd x \<noteq> None \<and> a_date (fst x) = Some (snd (fst g))
                       \<and> (a_game_id (fst x), home_away (fst x)) = (fst (fst g), snd g)) df)"
  by (induction df) (auto simp: group_values_def split: option.splits)

lemma group_values_single:
  assumes dist: "distinct (map game_id gs)"
    and mem: "(a, Some r) \<in> set (teams_rest gs)"
    and d: "a_date a = Some d"
  shows "group_values (teams_rest gs) ((a_game_id a, d), home_away a) = [r]"
proof -
  let ?f = "\<lambda>x. (a_game_id (fst x), home_away (fst x))"
  let ?P = "\<lambda>x. snd x \<noteq> None \<and> a_date (fst x) = Some d"
  have single: "filter (\<lambda>y. ?f y = ?f (a, Some r)) (teams_rest gs) = [(a, Some r)]"
    using distinct_teams_rest_key [OF dist] mem by (rule filter_eq_singleton)
  have "filter (\<lambda>x. ?P x \<and> ?f x = ?f (a, Some r)) (teams_rest gs)
        = filter ?P (filter (\<lambda>y. ?f y = ?f (a, Some r)) (teams_rest gs))"
    by (simp add: conj_commute)
  also have "\<dots> = [(a, Some r)]"
    unfolding single using d by simp
  finally show ?thesis
    unfolding group_values_filter by (simp add: conj_assoc)
qed

lemma mean_single: "mean [r] = Some (real_of_int r)"
  by (simp add: mean_def)


lemma remelt_mem:
  assumes "remelt bg = Inr ms"
  shows "(k, c, v) \<in> set ms \<longleftrightarrow>
           (\<exists>rs. (k, rs) \<in> set (bg_rows bg)
                 \<and> v = (case c of Away_team \<Rightarrow> away_rest rs | Home_team \<Rightarrow> home_rest rs))"
proof -
  from assms have ms: "ms = map (\<lambda>(k, rs). (k, Away_team, away_rest rs)) (bg_rows bg)
                @ map (\<lambda>(k, rs). (k, Home_team, home_rest rs)) (bg_rows bg)"
    by (auto simp: remelt_def split: if_splits)
  show ?thesis
    unfolding ms by (cases c) auto
qed

lemma bg_row_cell:
  assumes dist: "distinct (map game_id gs)"
    and mem: "(a, Some r) \<in> set (teams_rest gs)"
    and d: "a_date a = Some d"
    and row: "((a_game_id a, d), rs) \<in> set (bg_rows (by_game (teams_rest gs)))"
  shows "(case home_away a of Away_team \<Rightarrow> away_rest rs | Home_team \<Rightarrow> home_rest rs)
           = Some (real_of_int r)"
proof -
  let ?df = "teams_rest gs"
  let ?k = "(a_game_id a, d)"
  have gv: "group_values ?df (?k, home_away a) = [r]"
    using dist mem d by (rule group_values_single)
  have "distinct (map fst (bg_rows (by_game ?df)))"
    by (simp add: map_fst_bg_rows)
  with row have "map_of (bg_rows (by_game ?df)) ?k = Some rs"
    by simp
  then have rs: "rs = \<lparr>away_rest = mean (group_values ?df (?k, Away_team)),
                        home_rest = mean (group_values ?df (?k, Home_team))\<rparr>"
    unfolding map_of_bg_rows by (simp split: if_splits)
  show ?thesis
    using gv unfolding rs by (cases "home_away a") (simp_all add: mean_single)
qed

text \<open>
  C2. For games with pairwise different ids (the cleaning chain gives such ids): take an
  appearance with a defined rest value whose game has a defined rest value on the other
  side too. Then the wide table has both rest columns, melting it again succeeds, and the
  melted table has exactly one value for that game key and role: the appearance's rest
  value.
\<close>

theorem round_trip_rest:
  assumes "distinct (map game_id gs)"
    and "(a, Some r) \<in> set (teams_rest gs)"
    and "(b, Some r') \<in> set (teams_rest gs)"
    and "a_game_id b = a_game_id a"
    and "home_away b \<noteq> home_away a"
  shows "\<exists>d ms. a_date a = Some d
           \<and> remelt (by_game (teams_rest gs)) = Inr ms
           \<and> (\<forall>v. ((a_game_id a, d), home_away a, v) \<in> set ms \<longleftrightarrow> v = Some (real_of_int r))"
proof -
  let ?df = "teams_rest gs"
  from assms(2) obtain d where d: "a_date a = Some d"
    using teams_rest_defined_date by blast
  from assms(3) obtain d' where d': "a_date b = Some d'"
    using teams_rest_defined_date by blast
  let ?k = "(a_game_id a, d)"
  have gva: "group_values ?df (?k, home_away a) = [r]"
    using assms(1,2) d by (rule group_values_single)
  have gvb: "group_values ?df ((a_game_id b, d'), home_away b) = [r']"
    using assms(1,3) d' by (rule group_values_single)
  from gva have "\<exists>k. group_values ?df (k, home_away a) \<noteq> []"
    by (intro exI [of _ ?k]) simp
  then have ca: "home_away a \<in> set (bg_columns (by_game ?df))"
    by (simp only: bg_columns_iff)
  from gvb have "\<exists>k. group_values ?df (k, home_away b) \<noteq> []"
    by (intro exI [of _ "(a_game_id b, d')"]) simp
  then have cb: "home_away b \<in> set (bg_columns (by_game ?df))"
    by (simp only: bg_columns_iff)
  from assms(5) have "home_away a = Away_team \<and> home_away b = Home_team
      \<or> home_away a = Home_team \<and> home_away b = Away_team"
    by (cases "home_away a"; cases "home_away b") simp_all
  with ca cb have cols: "Away_team \<in> set (bg_columns (by_game ?df))
      \<and> Home_team \<in> set (bg_columns (by_game ?df))"
    by metis
  then have ms: "remelt (by_game ?df)
      = Inr (map (\<lambda>(k, rs). (k, Away_team, away_rest rs)) (bg_rows (by_game ?df))
             @ map (\<lambda>(k, rs). (k, Home_team, home_rest rs)) (bg_rows (by_game ?df)))"
    (is "_ = Inr ?ms")
    unfolding remelt_def by (simp only: if_True simp_thms)
  from gva have "\<exists>c. group_values ?df (?k, c) \<noteq> []"
    by (intro exI [of _ "home_away a"]) simp
  then have "?k \<in> fst ` set (bg_rows (by_game ?df))"
    by (simp only: bg_keys_iff)
  then obtain rs0 where row0: "(?k, rs0) \<in> set (bg_rows (by_game ?df))"
    by auto
  note mem = remelt_mem [OF ms, of ?k "home_away a"]
  have "(?k, home_away a, v) \<in> set ?ms \<longleftrightarrow> v = Some (real_of_int r)" for v
  proof
    assume "(?k, home_away a, v) \<in> set ?ms"
    then obtain rs where rs: "(?k, rs) \<in> set (bg_rows (by_game ?df))"
      and v: "v = (case home_away a of Away_team \<Rightarrow> away_rest rs | Home_team \<Rightarrow> home_rest rs)"
      unfolding mem by (elim exE conjE)
    from v bg_row_cell [OF assms(1,2) d rs] show "v = Some (real_of_int r)"
      by (rule trans)
  next
    assume v: "v = Some (real_of_int r)"
    have "(?k, rs0) \<in> set (bg_rows (by_game ?df))
          \<and> v = (case home_away a of Away_team \<Rightarrow> away_rest rs0 | Home_team \<Rightarrow> home_rest rs0)"
      using row0 bg_row_cell [OF assms(1,2) d row0] v by (intro conjI) (assumption, simp only:)
    then show "(?k, home_away a, v) \<in> set ?ms"
      unfolding mem by (rule exI)
  qed
  with d ms show ?thesis by blast
qed


theorem round_trip_rest_witness:
  "distinct (map game_id [ex_g1, ex_g2, ex_g3, ex_g4])
   \<and> (\<lparr>a_game_id = 4, a_date = Some 735905, home_away = Away_team, team = Some ''Detroit Pistons''\<rparr>,
        Some 3) \<in> set (teams_rest [ex_g1, ex_g2, ex_g3, ex_g4])
   \<and> (\<lparr>a_game_id = 4, a_date = Some 735905, home_away = Home_team, team = Some ''Cleveland Cavaliers''\<rparr>,
        Some 1) \<in> set (teams_rest [ex_g1, ex_g2, ex_g3, ex_g4])
   \<and> remelt (by_game (teams_rest [ex_g1, ex_g2, ex_g3, ex_g4]))
       = Inr [((2, 735901), Away_team, Some 2), ((3, 735903), Away_team, Some 4),
              ((4, 735905), Away_team, Some 3),
              ((2, 735901), Home_team, None), ((3, 735903), Home_team, Some 1),
              ((4, 735905), Home_team, Some 1)]
   \<and> ((4, 735905), Away_team, Some 3)
       \<in> set [((2::nat, 735901::int), Away_team, Some 2), ((3, 735903), Away_team, Some 4),
               ((4, 735905), Away_team, Some 3),
               ((2, 735901), Home_team, None), ((3, 735903), Home_team, Some 1),
               ((4, 735905), Home_team, Some (1::real))]"
proof -
  let ?gs = "[ex_g1, ex_g2, ex_g3, ex_g4]"
  let ?a = "\<lparr>a_game_id = 4, a_date = Some 735905, home_away = Away_team, team = Some ''Detroit Pistons''\<rparr>"
  let ?b = "\<lparr>a_game_id = 4, a_date = Some 735905, home_away = Home_team, team = Some ''Cleveland Cavaliers''\<rparr>"
  let ?ms = "[((2, 735901), Away_team, Some 2), ((3, 735903), Away_team, Some 4),
              ((4, 735905), Away_team, Some 3),
              ((2::nat, 735901::int), Home_team, None), ((3, 735903), Home_team, Some 1),
              ((4, 735905), Home_team, Some (1::real))]"
  have dist: "distinct (map game_id ?gs)"
    by (simp add: ex_g1_def ex_g2_def ex_g3_def ex_g4_def)
  have a: "(?a, Some 3) \<in> set (teams_rest ?gs)" and b: "(?b, Some 1) \<in> set (teams_rest ?gs)"
    unfolding teams_rest_example4 by simp_all
  have ids: "a_game_id ?b = a_game_id ?a" and roles: "home_away ?b \<noteq> home_away ?a"
    by simp_all
  have val: "remelt (by_game (teams_rest ?gs)) = Inr ?ms"
    unfolding by_game_example4 by (simp add: remelt_def)
  from round_trip_rest [OF dist a b ids roles]
  obtain d ms where d: "a_date ?a = Some d" and ms: "remelt (by_game (teams_rest ?gs)) = Inr ms"
    and iff: "\<forall>v. ((a_game_id ?a, d), home_away ?a, v) \<in> set ms \<longleftrightarrow> v = Some (real_of_int 3)"
    by blast
  from d have d': "d = 735905" by simp
  from ms val have ms': "ms = ?ms" by simp
  from iff have "((4, 735905), Away_team, Some 3) \<in> set ?ms"
    unfolding d' ms' by simp
  with dist a b val show ?thesis
    by (intro conjI)
qed


subsection \<open>Rest advantage\<close>








subsection \<open>The final table\<close>

lemma group_values_missing:
  assumes dist: "distinct (map game_id gs)"
    and mem: "(a, None) \<in> set (teams_rest gs)"
  shows "group_values (teams_rest gs) ((a_game_id a, d), home_away a) = []"
proof -
  let ?f = "\<lambda>x. (a_game_id (fst x), home_away (fst x))"
  let ?P = "\<lambda>x. snd x \<noteq> None \<and> a_date (fst x) = Some d"
  let ?x = "(a, None :: int option)"
  have single: "filter (\<lambda>y. ?f y = ?f ?x) (teams_rest gs) = [?x]"
    using distinct_teams_rest_key [OF dist] mem by (rule filter_eq_singleton)
  have "filter (\<lambda>x. ?P x \<and> ?f x = ?f ?x) (teams_rest gs)
        = filter ?P (filter (\<lambda>y. ?f y = ?f ?x) (teams_rest gs))"
    by (simp add: conj_commute)
  also have "\<dots> = []"
    unfolding single by simp
  finally show ?thesis
    unfolding group_values_filter by (simp add: conj_assoc)
qed

lemma joined_rests:
  assumes "(g, rs) \<in> set (concat_columns gs (by_game df))"
  shows "away_rest rs = (case date g of None \<Rightarrow> None
           | Some d \<Rightarrow> mean (group_values df ((game_id g, d), Away_team)))"
    and "home_rest rs = (case date g of None \<Rightarrow> None
           | Some d \<Rightarrow> mean (group_values df ((game_id g, d), Home_team)))"
proof -
  from assms have rs: "rs = (case date g of
                     None \<Rightarrow> \<lparr>away_rest = None, home_rest = None\<rparr>
                   | Some d \<Rightarrow>
                       (case map_of (bg_rows (by_game df)) (game_id g, d) of
                          None \<Rightarrow> \<lparr>away_rest = None, home_rest = None\<rparr>
                        | Some rs \<Rightarrow> rs))"
    by (auto simp: concat_columns_def)
  show "away_rest rs = (case date g of None \<Rightarrow> None
           | Some d \<Rightarrow> mean (group_values df ((game_id g, d), Away_team)))"
    unfolding rs map_of_bg_rows by (auto simp: mean_def split: option.splits)
  show "home_rest rs = (case date g of None \<Rightarrow> None
           | Some d \<Rightarrow> mean (group_values df ((game_id g, d), Home_team)))"
    unfolding rs map_of_bg_rows by (auto simp: mean_def split: option.splits)
qed

lemma missing_rest_excluded:
  assumes dist: "distinct (map game_id gs)"
    and row: "(g, rs) \<in> set (gr_rows (games_rest gs))"
  shows "Away_team \<in> set (gr_columns (games_rest gs))
           \<Longrightarrow> (away_appearance g, None) \<notin> set (teams_rest gs)"
    and "Home_team \<in> set (gr_columns (games_rest gs))
           \<Longrightarrow> (home_appearance g, None) \<notin> set (teams_rest gs)"
proof -
  from row have joined: "(g, rs) \<in> set (concat_columns gs (by_game (teams_rest gs)))"
    by (simp add: games_rest_def Let_def)
  from row have notna: "notna_row (gr_columns (games_rest gs)) (g, rs)"
    by (rule gr_rows_notna)
  show "(away_appearance g, None) \<notin> set (teams_rest gs)"
    if col: "Away_team \<in> set (gr_columns (games_rest gs))"
  proof
    assume "(away_appearance g, None) \<in> set (teams_rest gs)"
    from group_values_missing [OF dist this]
    have "group_values (teams_rest gs) ((game_id g, d), Away_team) = []" for d
      by (simp add: away_appearance_def)
    then have "away_rest rs = None"
      unfolding joined_rests(1) [OF joined] by (simp add: mean_def split: option.splits)
    with notna col show False
      by (simp add: notna_row_def)
  qed
  show "(home_appearance g, None) \<notin> set (teams_rest gs)"
    if col: "Home_team \<in> set (gr_columns (games_rest gs))"
  proof
    assume "(home_appearance g, None) \<in> set (teams_rest gs)"
    from group_values_missing [OF dist this]
    have "group_values (teams_rest gs) ((game_id g, d), Home_team) = []" for d
      by (simp add: home_appearance_def)
    then have "home_rest rs = None"
      unfolding joined_rests(2) [OF joined] by (simp add: mean_def split: option.splits)
    with notna col show False
      by (simp add: notna_row_def)
  qed
qed

text \<open>
  C10 on the two-game example. The Pistons' only appearance is the home side of game 2,
  so the home rest of that game is missing in \<open>teams\<close>; the final table has the
  \<open>away_rest\<close> column only, and game 2 is in it.
\<close>

theorem game_with_missing_rest_kept:
  "(home_appearance ex_g2, None) \<in> set (teams_rest [ex_g1, ex_g2])
   \<and> gr_columns (games_rest [ex_g1, ex_g2]) = [Away_team]
   \<and> map fst (gr_rows (games_rest [ex_g1, ex_g2])) = [ex_g2]"
proof -
  have "(home_appearance ex_g2, None) \<in> set (teams_rest [ex_g1, ex_g2])"
    unfolding teams_rest_example
    by (simp add: home_appearance_def ex_g2_def toordinal_simps)
  moreover have "gr_columns (games_rest [ex_g1, ex_g2]) = [Away_team]"
    and "map fst (gr_rows (games_rest [ex_g1, ex_g2])) = [ex_g2]"
    unfolding games_rest_example by simp_all
  ultimately show ?thesis by (intro conjI)
qed

text \<open>
  What \<open>dropna\<close> does guarantee. Every row of the final table is a game of \<open>games\<close>
  with its away team, away points, home team and home points present and with a value in
  each rest column that the table has. A game that lacks a team name or a points value is
  not in the table; with pairwise different game ids, neither is a game whose away or
  home appearance has a missing rest value, when the table has the rest column of that
  role.
\<close>

lemma games_rest_rows_complete:
  "(\<forall>row \<in> set (gr_rows (games_rest gs)).
       fst row \<in> set gs
       \<and> away_team (fst row) \<noteq> None \<and> away_points (fst row) \<noteq> None
       \<and> home_team (fst row) \<noteq> None \<and> home_points (fst row) \<noteq> None
       \<and> (Away_team \<in> set (gr_columns (games_rest gs)) \<longrightarrow> away_rest (snd row) \<noteq> None)
       \<and> (Home_team \<in> set (gr_columns (games_rest gs)) \<longrightarrow> home_rest (snd row) \<noteq> None))
   \<and> (\<forall>g \<in> set gs.
         away_team g = None \<or> away_points g = None \<or> home_team g = None \<or> home_points g = None
         \<longrightarrow> g \<notin> fst ` set (gr_rows (games_rest gs)))
   \<and> (distinct (map game_id gs) \<longrightarrow>
         (\<forall>g \<in> set gs.
            Away_team \<in> set (gr_columns (games_rest gs))
              \<and> (away_appearance g, None) \<in> set (teams_rest gs)
            \<or> Home_team \<in> set (gr_columns (games_rest gs))
              \<and> (home_appearance g, None) \<in> set (teams_rest gs)
            \<longrightarrow> g \<notin> fst ` set (gr_rows (games_rest gs))))"
proof -
  have rows: "\<forall>row \<in> set (gr_rows (games_rest gs)).
       fst row \<in> set gs
       \<and> away_team (fst row) \<noteq> None \<and> away_points (fst row) \<noteq> None
       \<and> home_team (fst row) \<noteq> None \<and> home_points (fst row) \<noteq> None
       \<and> (Away_team \<in> set (gr_columns (games_rest gs)) \<longrightarrow> away_rest (snd row) \<noteq> None)
       \<and> (Home_team \<in> set (gr_columns (games_rest gs)) \<longrightarrow> home_rest (snd row) \<noteq> None)"
    using gr_rows_subset [of _ gs] gr_rows_notna [of _ gs]
    unfolding notna_row_def by blast
  then have attrs: "\<forall>g \<in> set gs.
         away_team g = None \<or> away_points g = None \<or> home_team g = None \<or> home_points g = None
         \<longrightarrow> g \<notin> fst ` set (gr_rows (games_rest gs))"
    by (metis (no_types, lifting) imageE)
  have rests: "g \<notin> fst ` set (gr_rows (games_rest gs))"
    if dist: "distinct (map game_id gs)"
      and miss: "Away_team \<in> set (gr_columns (games_rest gs))
              \<and> (away_appearance g, None) \<in> set (teams_rest gs)
            \<or> Home_team \<in> set (gr_columns (games_rest gs))
              \<and> (home_appearance g, None) \<in> set (teams_rest gs)" for g
  proof
    assume "g \<in> fst ` set (gr_rows (games_rest gs))"
    then obtain rs where "(g, rs) \<in> set (gr_rows (games_rest gs))"
      by auto
    from missing_rest_excluded [OF dist this] miss show False
      by blast
  qed
  from rows attrs rests show ?thesis
    by blast
qed

end
